theory Spec2Isabelle
  imports Complex_Main
begin

section \<open>Phone validation: \<open>CreateCustomer.validate_phone\<close>\<close>

text \<open>
  The source validates a phone with
  \<^verbatim>\<open>re.match(r'^\+?1?\d{9,15}$|^\d{3}-\d{3}-\d{4}$', phone)\<close>.
  The pattern is embedded as a syntax tree and matched by a small matcher that
  follows the semantics of Python's \<open>re\<close> module for the constructs the pattern uses:
  \<^item> \<open>re.match\<close> anchors the match at position 0 and accepts any end position;
  \<^item> \<open>^\<close> (no MULTILINE flag) holds at position 0 only;
  \<^item> \<open>$\<close> (no MULTILINE flag) holds at the end of the string and also just before
    a newline that is the last character of the string;
  \<^item> \<open>\d\<close> is a decimal digit. Strings are modelled as \<open>string\<close>, that is
    characters with codes below 256, where the decimal digits are \<open>0\<close> to \<open>9\<close>.
    Python's \<open>\d\<close> also matches the decimal digits of other scripts; a phone with
    such characters cannot be written here and is outside the model.
  A matcher state is the number of characters consumed and the rest of the string.
\<close>

datatype re =
    Chr char
  | Digit
  | Bol
  | Eol
  | Eps
  | Opt re
  | Seq re re
  | Alt re re

definition is_digit :: "char \<Rightarrow> bool" where
  "is_digit c = (c \<in> set ''0123456789'')"

text \<open>\<open>ends r (n, rest)\<close>: every state the matcher can be in after matching \<open>r\<close> from the
  state \<open>(n, rest)\<close>.\<close>

fun ends :: "re \<Rightarrow> nat \<times> string \<Rightarrow> (nat \<times> string) list" where
  "ends (Chr c) (n, s) = (case s of [] \<Rightarrow> [] | x # xs \<Rightarrow> if x = c then [(Suc n, xs)] else [])"
| "ends Digit (n, s) = (case s of [] \<Rightarrow> [] | x # xs \<Rightarrow> if is_digit x then [(Suc n, xs)] else [])"
| "ends Bol (n, s) = (if n = 0 then [(n, s)] else [])"
| "ends Eol (n, s) = (if s = [] \<or> s = [CHR 0x0A] then [(n, s)] else [])"
| "ends Eps (n, s) = [(n, s)]"
| "ends (Opt r) st = ends r st @ [st]"
| "ends (Seq r1 r2) st = concat (map (ends r2) (ends r1 st))"
| "ends (Alt r1 r2) st = ends r1 st @ ends r2 st"

text \<open>The counted repetition \<open>r{m,n}\<close> is \<open>m\<close> copies of \<open>r\<close> followed by up to
  \<open>n - m\<close> optional copies.\<close>

primrec rep_exact :: "nat \<Rightarrow> re \<Rightarrow> re" where
  "rep_exact 0 r = Eps"
| "rep_exact (Suc k) r = Seq r (rep_exact k r)"

primrec rep_upto :: "nat \<Rightarrow> re \<Rightarrow> re" where
  "rep_upto 0 r = Eps"
| "rep_upto (Suc k) r = Opt (Seq r (rep_upto k r))"

definition Rep :: "nat \<Rightarrow> nat \<Rightarrow> re \<Rightarrow> re" where
  "Rep m n r = Seq (rep_exact m r) (rep_upto (n - m) r)"

definition re_match :: "re \<Rightarrow> string \<Rightarrow> bool" where
  "re_match r s = (ends r (0, s) \<noteq> [])"

text \<open>\<^verbatim>\<open>^\+?1?\d{9,15}$|^\d{3}-\d{3}-\d{4}$\<close>\<close>

definition pattern :: re where
  "pattern =
     Alt (Seq Bol (Seq (Opt (Chr CHR ''+'')) (Seq (Opt (Chr CHR ''1''))
            (Seq (Rep 9 15 Digit) Eol))))
         (Seq Bol (Seq (Rep 3 3 Digit) (Seq (Chr CHR ''-'')
            (Seq (Rep 3 3 Digit) (Seq (Chr CHR ''-'') (Seq (Rep 4 4 Digit) Eol))))))"

text \<open>
  \<^verbatim>\<open>
  def validate_phone(phone):
      if not phone:
          return True
      pattern = r'...'
      return bool(re.match(pattern, phone))
  \<close>
  The phone is optional in \<open>CustomerInput\<close>: \<open>None\<close> is the absent phone, and
  \<open>not phone\<close> holds for \<open>None\<close> and for the empty string.
\<close>

definition validate_phone :: "string option \<Rightarrow> bool" where
  "validate_phone phone =
     (case phone of
        None \<Rightarrow> True
      | Some p \<Rightarrow> if p = [] then True else re_match pattern p)"

text \<open>
  The two accepted formats in the words of the specification, to be compared with the
  matcher: an optional \<open>+\<close>, an optional \<open>1\<close> and 9 to 15 digits; or
  \<open>NNN-NNN-NNNN\<close>.
\<close>

definition international :: "string \<Rightarrow> bool" where
  "international p =
     list_ex (\<lambda>pre. take (length pre) p = pre \<and>
                 list_all is_digit (drop (length pre) p) \<and>
                 9 + length pre \<le> length p \<and> length p \<le> 15 + length pre)
       [[], ''+'', ''1'', ''+1'']"

definition dashed :: "string \<Rightarrow> bool" where
  "dashed p =
     (length p = 12 \<and>
      list_all is_digit (take 3 p) \<and> take 1 (drop 3 p) = ''-'' \<and>
      list_all is_digit (take 3 (drop 4 p)) \<and> take 1 (drop 7 p) = ''-'' \<and>
      list_all is_digit (drop 8 p))"

definition phone_format :: "string \<Rightarrow> bool" where
  "phone_format p = (international p \<or> dashed p)"

text \<open>The two alternatives of the pattern, and names for the pieces the proofs use.\<close>

definition alt_international :: re where
  "alt_international = Seq Bol (Seq (Opt (Chr CHR ''+'')) (Seq (Opt (Chr CHR ''1''))
            (Seq (Rep 9 15 Digit) Eol)))"

definition alt_dashed :: re where
  "alt_dashed = Seq Bol (Seq (Rep 3 3 Digit) (Seq (Chr CHR ''-'')
            (Seq (Rep 3 3 Digit) (Seq (Chr CHR ''-'') (Seq (Rep 4 4 Digit) Eol)))))"

definition tailok :: "string \<Rightarrow> bool" where
  "tailok t = (t = [] \<or> t = [CHR 0x0A])"

definition digits_9_15 :: "string \<Rightarrow> bool" where
  "digits_9_15 q = (list_all is_digit q \<and> 9 \<le> length q \<and> length q \<le> 15)"

definition dashed_parts :: "string \<Rightarrow> string \<Rightarrow> string \<Rightarrow> bool" where
  "dashed_parts a b c =
     (length a = 3 \<and> length b = 3 \<and> length c = 4 \<and>
      list_all is_digit a \<and> list_all is_digit b \<and> list_all is_digit c)"

section \<open>Numbers as Python prints and reads them\<close>

text \<open>\<open>str(n)\<close> for a Python integer.\<close>

definition digit_char :: "nat \<Rightarrow> char" where
  "digit_char d = ''0123456789'' ! (d mod 10)"

fun str_nat :: "nat \<Rightarrow> string" where
  "str_nat n = (if n < 10 then [digit_char n] else str_nat (n div 10) @ [digit_char (n mod 10)])"

declare str_nat.simps [simp del]

definition str_int :: "int \<Rightarrow> string" where
  "str_int i = (if i < 0 then CHR ''-'' # str_nat (nat (- i)) else str_nat (nat i))"

text \<open>\<open>len(str(n))\<close>: the number of decimal digits of a coefficient.\<close>

fun ndigits :: "nat \<Rightarrow> nat" where
  "ndigits n = (if n < 10 then 1 else Suc (ndigits (n div 10)))"

declare ndigits.simps [simp del]

text \<open>
  The primary keys are integer columns, and the ids of the GraphQL input are strings
  (\<open>graphene.ID\<close>). A lookup by id converts the string with Python's \<open>int()\<close>, which
  strips white space (tab to carriage return, the space, and the characters 0x85 and
  0xA0), reads an optional sign and then digits, where single underscores may stand
  between digits; anything else raises \<open>ValueError\<close> (\<open>None\<close> here).
\<close>

definition is_space :: "char \<Rightarrow> bool" where
  "is_space c = (c \<in> set [CHR 0x09, CHR 0x0A, CHR 0x0B, CHR 0x0C, CHR 0x0D, CHR 0x20,
                            CHR 0x85, CHR 0xA0])"

definition strip :: "string \<Rightarrow> string" where
  "strip s = rev (dropWhile is_space (rev (dropWhile is_space s)))"

definition digit_val :: "char \<Rightarrow> nat" where
  "digit_val c = of_char c - 48"

fun parse_digits :: "nat \<Rightarrow> bool \<Rightarrow> string \<Rightarrow> nat option" where
  "parse_digits acc prev [] = (if prev then Some acc else None)"
| "parse_digits acc prev (c # cs) =
     (if is_digit c then parse_digits (acc * 10 + digit_val c) True cs
      else if c = CHR ''_'' \<and> prev then parse_digits acc False cs
      else None)"

definition py_int :: "string \<Rightarrow> int option" where
  "py_int s =
     (case strip s of
        [] \<Rightarrow> None
      | c # cs \<Rightarrow>
          if c = CHR ''-'' then map_option (\<lambda>n. - int n) (parse_digits 0 False cs)
          else if c = CHR ''+'' then map_option int (parse_digits 0 False cs)
          else map_option int (parse_digits 0 False (c # cs)))"

text \<open>\<open>sep.join(xs)\<close>\<close>

fun join :: "string \<Rightarrow> string list \<Rightarrow> string" where
  "join sep [] = []"
| "join sep [x] = x"
| "join sep (x # y # ys) = x @ sep @ join sep (y # ys)"

section \<open>Decimals\<close>

text \<open>
  A finite, non-negative \<open>decimal.Decimal\<close>: the coefficient \<open>_int\<close> (kept by Python as
  a digit string without leading zeros, here its number) and the exponent \<open>_exp\<close>; the
  value is \<open>dec_int * 10 ^ dec_exp\<close>. The prices and totals of this program are never
  negative: a price is positive when a product is created, and a total is a sum of prices.
\<close>

record decimal =
  dec_int :: nat
  dec_exp :: int

definition Decimal_0 :: decimal where
  "Decimal_0 = \<lparr>dec_int = 0, dec_exp = 0\<rparr>"

text \<open>The value of a decimal, as a rational number.\<close>

definition dec_val :: "decimal \<Rightarrow> rat" where
  "dec_val d = of_nat (dec_int d) * 10 powi dec_exp d"

text \<open>
  Arithmetic runs in the default context: 28 significant digits, rounding half to even.
  \<open>decimal_fix\<close> is \<open>Decimal._fix\<close> for a non-negative number: a coefficient of more than 28
  digits is cut to its first 28, rounded, and when the rounding carries into a 29th digit
  the last digit is dropped again. The context's exponent limits (beyond \<open>\<plusminus>999999\<close>)
  are not modelled.
\<close>

definition prec :: nat where
  "prec = 28"

definition round_half_even :: "nat \<Rightarrow> nat \<Rightarrow> nat" where
  "round_half_even c k =
     (let q = c div 10 ^ k; r = c mod 10 ^ k
      in if 2 * r > 10 ^ k \<or> (2 * r = 10 ^ k \<and> odd q) then q + 1 else q)"

definition decimal_fix :: "decimal \<Rightarrow> decimal" where
  "decimal_fix d =
     (let n = ndigits (dec_int d)
      in if n \<le> prec then d
         else let k = n - prec; q = round_half_even (dec_int d) k
              in if ndigits q > prec
                 then \<lparr>dec_int = q div 10, dec_exp = dec_exp d + int k + 1\<rparr>
                 else \<lparr>dec_int = q, dec_exp = dec_exp d + int k\<rparr>)"

text \<open>
  \<open>Decimal.__add__\<close>: the exact sum, written at the smaller of the two exponents, and then
  rounded to the context.
\<close>

definition exact_add :: "decimal \<Rightarrow> decimal \<Rightarrow> decimal" where
  "exact_add a b =
     (let e = min (dec_exp a) (dec_exp b)
      in \<lparr>dec_int = dec_int a * 10 ^ nat (dec_exp a - e) + dec_int b * 10 ^ nat (dec_exp b - e),
          dec_exp = e\<rparr>)"

definition decimal_add :: "decimal \<Rightarrow> decimal \<Rightarrow> decimal" where
  "decimal_add a b = decimal_fix (exact_add a b)"

text \<open>\<open>sum(xs)\<close> over decimals: Python starts from the integer 0, which the first
  addition converts to \<open>Decimal(0)\<close>.\<close>

definition py_sum :: "decimal list \<Rightarrow> decimal" where
  "py_sum xs = foldl decimal_add Decimal_0 xs"

text \<open>The sum without the rounding of the context, to compare with.\<close>

definition exact_sum :: "decimal list \<Rightarrow> decimal" where
  "exact_sum xs = foldl exact_add Decimal_0 xs"

text \<open>
  \<open>str(d)\<close>, that is \<open>Decimal.__str__\<close>: plain notation when the exponent is at most 0
  and the number is not too small, scientific notation with one digit before the point
  otherwise.
\<close>

definition decimal_str :: "decimal \<Rightarrow> string" where
  "decimal_str d =
     (let digits = str_nat (dec_int d);
          leftdigits = dec_exp d + int (length digits);
          dotplace = (if dec_exp d \<le> 0 \<and> leftdigits > - 6 then leftdigits else 1);
          mantissa =
            (if dotplace \<le> 0 then ''0.'' @ replicate (nat (- dotplace)) CHR ''0'' @ digits
             else if dotplace \<ge> int (length digits)
               then digits @ replicate (nat dotplace - length digits) CHR ''0''
             else take (nat dotplace) digits @ ''.'' @ drop (nat dotplace) digits);
          e = leftdigits - dotplace
      in if e = 0 then mantissa
         else mantissa @ ''E'' @ (if e < 0 then str_int e else CHR ''+'' # str_int e))"

section \<open>The float of the product input\<close>

text \<open>
  \<open>ProductInput.price\<close> is a \<open>graphene.Float\<close>. The program does two things with it: it
  compares it with 0, and it prints it with \<open>str\<close> to build a \<open>Decimal\<close> from the text.
  A finite float is therefore given here by what \<open>str\<close> prints of it: its sign and the
  shortest digit string that reads back as the same float, with the position of the
  decimal point. The value printed is \<open>0.DIGITS * 10 ^ f_decpt\<close>: 9.99 has the digits
  999 and the point at 1, 100.0 the digit 1 and the point at 3.
\<close>

record pyfloat =
  f_negative :: bool
  f_digits :: nat
  f_decpt :: int

definition float_le_0 :: "pyfloat \<Rightarrow> bool" where
  "float_le_0 x = (f_negative x \<or> f_digits x = 0)"

text \<open>The value \<open>str\<close> prints for a float that is not negative.\<close>

definition float_val :: "pyfloat \<Rightarrow> rat" where
  "float_val x = of_nat (f_digits x) * 10 powi (f_decpt x - int (ndigits (f_digits x)))"

text \<open>
  \<open>Decimal(str(x))\<close> for a float that is not negative. \<open>str\<close> prints scientific notation
  (\<open>d.ddde+XX\<close>) when the point is at or before -4 or after 16, and the \<open>Decimal\<close> read
  from it keeps the digits. Otherwise it prints plain notation: a whole number is printed
  with its zeros and a final \<open>.0\<close>, which the \<open>Decimal\<close> keeps as one decimal place.
\<close>

definition Decimal_str_float :: "pyfloat \<Rightarrow> decimal" where
  "Decimal_str_float x =
     (let n = int (ndigits (f_digits x))
      in if f_decpt x \<le> - 4 \<or> f_decpt x > 16
           then \<lparr>dec_int = f_digits x, dec_exp = f_decpt x - n\<rparr>
         else if f_decpt x \<ge> n
           then \<lparr>dec_int = f_digits x * 10 ^ nat (f_decpt x - n + 1), dec_exp = - 1\<rparr>
         else \<lparr>dec_int = f_digits x, dec_exp = f_decpt x - n\<rparr>)"

section \<open>Exceptions and their messages\<close>

text \<open>
  The mutations raise \<open>ValidationError(message)\<close>; every other exception (a database
  error, a \<open>ValueError\<close> of a lookup) is an \<open>Exception\<close> here. The program builds
  messages from literal text, from \<open>str(e)\<close> of an exception it caught and, in the
  framework's \<open>ValueError\<close>, from \<open>repr\<close> of a string. A message is kept as the list of its
  parts, so that no rendering of \<open>str(e)\<close> or \<open>repr(s)\<close> has to be assumed.
\<close>

datatype exn =
    ValidationError "part list"
  | Exception "part list"
and part =
    S string
  | StrOf exn
  | ReprOf string


text \<open>
  The store can fail for reasons outside the program (a lost connection, a constraint of
  the database). A run is given the outcomes of its store calls: \<open>fault fs k\<close> is the
  exception the \<open>k\<close>-th store call of the run raises, or \<open>None\<close> when that call goes
  through; calls beyond the list go through.
\<close>

type_synonym faults = "exn option list"

definition fault :: "faults \<Rightarrow> nat \<Rightarrow> exn option" where
  "fault fs k = (if k < length fs then fs ! k else None)"

section \<open>The entity store\<close>

text \<open>
  Modelled from the spec: the model classes \<open>Customer\<close>, \<open>Product\<close> and \<open>Order\<close> of
  \<open>crm/models.py\<close>, which is not among the sources. The fields are those the schema
  exposes and the data model of the specification describes; the creation timestamps,
  which no mutation reads, are left out. An order holds its customer and, for the
  many-to-many relation, its products.
\<close>

record Customer =
  c_id :: int
  c_name :: string
  c_email :: string
  c_phone :: "string option"

record Product =
  p_id :: int
  p_name :: string
  p_price :: decimal
  p_stock :: int

record Order =
  o_id :: int
  o_customer :: Customer
  o_products :: "Product list"
  o_total_amount :: decimal
  o_order_date :: "nat option"

record store =
  customers :: "Customer list"
  products :: "Product list"
  orders :: "Order list"

text \<open>The database gives a new row a primary key that no row of the table has.\<close>

definition next_pk :: "int list \<Rightarrow> int" where
  "next_pk ids = fold max ids 0 + 1"

text \<open>A primary key identifies one row.\<close>

definition wf_store :: "store \<Rightarrow> bool" where
  "wf_store s =
     (distinct (map c_id (customers s)) \<and> distinct (map p_id (products s)) \<and>
      distinct (map o_id (orders s)))"

text \<open>
  The \<open>ValueError\<close> of a lookup by an id that is not a number:
  \<^verbatim>\<open>Field 'id' expected a number but got 'abc'.\<close>
\<close>

definition not_a_number :: "string \<Rightarrow> exn" where
  "not_a_number v =
     Exception [S (''Field '' @ [CHR 0x27] @ ''id'' @ [CHR 0x27] @ '' expected a number but got ''),
                ReprOf v, S ''.'']"

text \<open>\<open>Customer.objects.get(pk=...)\<close>: \<open>Inr None\<close> is \<open>Customer.DoesNotExist\<close>.\<close>

definition Customer_get :: "exn option \<Rightarrow> store \<Rightarrow> string \<Rightarrow> exn + Customer option" where
  "Customer_get f s pk =
     (case py_int pk of
        None \<Rightarrow> Inl (not_a_number pk)
      | Some k \<Rightarrow>
          (case f of
             Some e \<Rightarrow> Inl e
           | None \<Rightarrow> Inr (find (\<lambda>c. c_id c = k) (customers s))))"

text \<open>\<open>Customer.objects.filter(email=...).exists()\<close>\<close>

definition Customer_email_exists :: "exn option \<Rightarrow> store \<Rightarrow> string \<Rightarrow> exn + bool" where
  "Customer_email_exists f s e =
     (case f of
        Some x \<Rightarrow> Inl x
      | None \<Rightarrow> Inr (list_ex (\<lambda>c. c_email c = e) (customers s)))"

text \<open>\<open>Customer.objects.create(name=..., email=..., phone=...)\<close>\<close>

definition Customer_create ::
  "exn option \<Rightarrow> store \<Rightarrow> string \<Rightarrow> string \<Rightarrow> string option \<Rightarrow> exn + Customer \<times> store" where
  "Customer_create f s n e ph =
     (case f of
        Some x \<Rightarrow> Inl x
      | None \<Rightarrow>
          (let c = \<lparr>c_id = next_pk (map c_id (customers s)), c_name = n, c_email = e,
                    c_phone = ph\<rparr>
           in Inr (c, s\<lparr>customers := customers s @ [c]\<rparr>)))"

text \<open>\<open>Product.objects.create(name=..., price=..., stock=...)\<close>\<close>

definition Product_create ::
  "exn option \<Rightarrow> store \<Rightarrow> string \<Rightarrow> decimal \<Rightarrow> int \<Rightarrow> exn + Product \<times> store" where
  "Product_create f s n pr st =
     (case f of
        Some x \<Rightarrow> Inl x
      | None \<Rightarrow>
          (let p = \<lparr>p_id = next_pk (map p_id (products s)), p_name = n, p_price = pr,
                    p_stock = st\<rparr>
           in Inr (p, s\<lparr>products := products s @ [p]\<rparr>)))"

text \<open>
  \<open>Product.objects.filter(id__in=ids)\<close>, evaluated by \<open>len(products)\<close>: the rows whose key
  is the number of one of the ids. An id that is not a number raises.
\<close>

definition Product_filter_id_in ::
  "exn option \<Rightarrow> store \<Rightarrow> string list \<Rightarrow> exn + Product list" where
  "Product_filter_id_in f s ids =
     (case find (\<lambda>i. py_int i = None) ids of
        Some bad \<Rightarrow> Inl (not_a_number bad)
      | None \<Rightarrow>
          (case f of
             Some x \<Rightarrow> Inl x
           | None \<Rightarrow> Inr (filter (\<lambda>p. Some (p_id p) \<in> set (map py_int ids)) (products s))))"

text \<open>\<open>Order.objects.create(customer=..., total_amount=..., order_date=...)\<close>\<close>

definition Order_create ::
  "exn option \<Rightarrow> store \<Rightarrow> Customer \<Rightarrow> decimal \<Rightarrow> nat option \<Rightarrow> exn + Order \<times> store" where
  "Order_create f s c amount date =
     (case f of
        Some x \<Rightarrow> Inl x
      | None \<Rightarrow>
          (let ord = \<lparr>o_id = next_pk (map o_id (orders s)), o_customer = c, o_products = [],
                      o_total_amount = amount, o_order_date = date\<rparr>
           in Inr (ord, s\<lparr>orders := orders s @ [ord]\<rparr>)))"

text \<open>Writing an order back: the row with its key is replaced.\<close>

definition put_order :: "Order \<Rightarrow> store \<Rightarrow> store" where
  "put_order ord s = s\<lparr>orders := map (\<lambda>r. if o_id r = o_id ord then ord else r) (orders s)\<rparr>"

text \<open>\<open>order.products.set(products)\<close>\<close>

definition Order_products_set ::
  "exn option \<Rightarrow> store \<Rightarrow> Order \<Rightarrow> Product list \<Rightarrow> exn + Order \<times> store" where
  "Order_products_set f s ord ps =
     (case f of
        Some x \<Rightarrow> Inl x
      | None \<Rightarrow> (let ord' = ord\<lparr>o_products := ps\<rparr> in Inr (ord', put_order ord' s)))"

text \<open>\<open>order.save()\<close>\<close>

definition Order_save :: "exn option \<Rightarrow> store \<Rightarrow> Order \<Rightarrow> exn + store" where
  "Order_save f s ord =
     (case f of
        Some x \<Rightarrow> Inl x
      | None \<Rightarrow> Inr (put_order ord s))"

text \<open>
  \<open>with transaction.atomic():\<close> An exception that leaves the block rolls the store back
  to the state at the entry of the block; otherwise the writes of the block are
  committed. The commit itself is taken to succeed. An exception that is caught inside
  the block does not leave it. What the database does with the rest of a transaction in
  which a statement failed is not modelled: the properties of the stored state after a
  bulk request are stated for runs in which no insert raises.
\<close>

definition atomic :: "store \<Rightarrow> (store \<Rightarrow> (exn + 'a) \<times> store) \<Rightarrow> (exn + 'a) \<times> store" where
  "atomic s body =
     (case body s of
        (Inl e, s') \<Rightarrow> (Inl e, s)
      | (Inr v, s') \<Rightarrow> (Inr v, s'))"

section \<open>The mutations\<close>

text \<open>
  Each mutation takes the outcomes of its store calls, the store and its input, and
  returns what it returns or raises, with the store it leaves. The inputs are the
  input object types of the schema: an id (\<open>graphene.ID\<close>) is a string, the optional
  phone may be absent, the stock carries its default 0 when it is not given, the price
  is a float. A null element in the list of product ids and an explicit null stock are
  not part of the model.
\<close>

record CustomerInput =
  ci_name :: string
  ci_email :: string
  ci_phone :: "string option"

record ProductInput =
  pi_name :: string
  pi_price :: pyfloat
  pi_stock :: int

record OrderInput =
  oi_customer_id :: string
  oi_product_ids :: "string list"
  oi_order_date :: "nat option"

record CreateCustomer =
  cc_customer :: Customer
  cc_message :: string


record CreateProduct =
  cp_product :: Product

record CreateOrder =
  co_order :: Order
  co_message :: string

text \<open>
  The handlers that close the \<open>try\<close> blocks:
  \<^verbatim>\<open>
  except ValidationError as e:
      raise ValidationError(str(e))
  except Exception as e:
      raise ValidationError(f"Error creating customer: {str(e)}")
  \<close>
\<close>

definition except_ValidationError :: "(exn + 'a) \<times> store \<Rightarrow> (exn + 'a) \<times> store" where
  "except_ValidationError r =
     (case r of
        (Inl (ValidationError m), s) \<Rightarrow> (Inl (ValidationError [StrOf (ValidationError m)]), s)
      | _ \<Rightarrow> r)"

definition except_Exception :: "string \<Rightarrow> (exn + 'a) \<times> store \<Rightarrow> (exn + 'a) \<times> store" where
  "except_Exception prefix r =
     (case r of
        (Inl (Exception m), s) \<Rightarrow> (Inl (ValidationError [S prefix, StrOf (Exception m)]), s)
      | _ \<Rightarrow> r)"

subsection \<open>\<open>CreateCustomer.mutate\<close>\<close>

definition CreateCustomer_try :: "faults \<Rightarrow> store \<Rightarrow> CustomerInput \<Rightarrow> (exn + CreateCustomer) \<times> store" where
  "CreateCustomer_try fs s input =
     (case Customer_email_exists (fault fs 0) s (ci_email input) of
        Inl e \<Rightarrow> (Inl e, s)
      | Inr True \<Rightarrow> (Inl (ValidationError [S ''Email already exists'']), s)
      | Inr False \<Rightarrow>
          (case Customer_create (fault fs 1) s (ci_name input) (ci_email input) (ci_phone input) of
             Inl e \<Rightarrow> (Inl e, s)
           | Inr (c, s') \<Rightarrow>
               (Inr \<lparr>cc_customer = c, cc_message = ''Customer created successfully''\<rparr>, s')))"

definition CreateCustomer_mutate ::
  "faults \<Rightarrow> store \<Rightarrow> CustomerInput \<Rightarrow> (exn + CreateCustomer) \<times> store" where
  "CreateCustomer_mutate fs s input =
     (if \<not> validate_phone (ci_phone input)
      then (Inl (ValidationError [S ''Invalid phone number format'']), s)
      else except_Exception ''Error creating customer: ''
             (except_ValidationError (CreateCustomer_try fs s input)))"

subsection \<open>\<open>BulkCreateCustomers.mutate\<close>\<close>



subsection \<open>\<open>CreateProduct.mutate\<close>\<close>

definition CreateProduct_mutate ::
  "faults \<Rightarrow> store \<Rightarrow> ProductInput \<Rightarrow> (exn + CreateProduct) \<times> store" where
  "CreateProduct_mutate fs s input =
     (if float_le_0 (pi_price input)
      then (Inl (ValidationError [S ''Price must be positive'']), s)
      else if pi_stock input < 0
      then (Inl (ValidationError [S ''Stock cannot be negative'']), s)
      else except_ValidationError
             (case Product_create (fault fs 0) s (pi_name input)
                     (Decimal_str_float (pi_price input)) (pi_stock input) of
                Inl e \<Rightarrow> (Inl e, s)
              | Inr (p, s') \<Rightarrow> (Inr \<lparr>cp_product = p\<rparr>, s')))"

subsection \<open>\<open>CreateOrder.mutate\<close>\<close>

text \<open>
  \<open>set(input.product_ids) - set(str(p.id) for p in products)\<close>. A Python set has no
  order of its own; the ids are listed here in the order of their first occurrence in
  the input.
\<close>

definition missing_products :: "string list \<Rightarrow> Product list \<Rightarrow> string list" where
  "missing_products ids ps =
     remdups (filter (\<lambda>i. i \<notin> set (map (\<lambda>p. str_int (p_id p)) ps)) ids)"

text \<open>The block under \<open>with transaction.atomic():\<close>\<close>

definition CreateOrder_block ::
  "faults \<Rightarrow> Customer \<Rightarrow> Product list \<Rightarrow> nat option \<Rightarrow> store \<Rightarrow> (exn + Order) \<times> store" where
  "CreateOrder_block fs customer ps date s =
     (case Order_create (fault fs 2) s customer \<lparr>dec_int = 0, dec_exp = 0\<rparr> date of
        Inl e \<Rightarrow> (Inl e, s)
      | Inr (ord, s1) \<Rightarrow>
          (case Order_products_set (fault fs 3) s1 ord ps of
             Inl e \<Rightarrow> (Inl e, s1)
           | Inr (ord1, s2) \<Rightarrow>
               (let amount = py_sum (map p_price ps);
                    ord2 = ord1\<lparr>o_total_amount := amount\<rparr>
                in case Order_save (fault fs 4) s2 ord2 of
                     Inl e \<Rightarrow> (Inl e, s2)
                   | Inr s3 \<Rightarrow> (Inr ord2, s3))))"

definition CreateOrder_try :: "faults \<Rightarrow> store \<Rightarrow> OrderInput \<Rightarrow> (exn + CreateOrder) \<times> store" where
  "CreateOrder_try fs s input =
     (case Customer_get (fault fs 0) s (oi_customer_id input) of
        Inl e \<Rightarrow> (Inl e, s)
      | Inr None \<Rightarrow> (Inl (ValidationError [S ''Customer not found'']), s)
      | Inr (Some customer) \<Rightarrow>
          if oi_product_ids input = []
          then (Inl (ValidationError [S ''At least one product is required'']), s)
          else
            (case Product_filter_id_in (fault fs 1) s (oi_product_ids input) of
               Inl e \<Rightarrow> (Inl e, s)
             | Inr ps \<Rightarrow>
                 if length ps \<noteq> length (oi_product_ids input)
                 then (Inl (ValidationError
                              [S (''Products not found: '' @
                                  join '', '' (missing_products (oi_product_ids input) ps))]), s)
                 else
                   (case atomic s (CreateOrder_block fs customer ps (oi_order_date input)) of
                      (Inl e, s') \<Rightarrow> (Inl e, s')
                    | (Inr ord, s') \<Rightarrow>
                        (Inr \<lparr>co_order = ord, co_message = ''Order created successfully''\<rparr>,
                         s'))))"

definition CreateOrder_mutate ::
  "faults \<Rightarrow> store \<Rightarrow> OrderInput \<Rightarrow> (exn + CreateOrder) \<times> store" where
  "CreateOrder_mutate fs s input =
     except_Exception ''Error creating order: ''
       (except_ValidationError (CreateOrder_try fs s input))"

subsection \<open>The resolvers of the decimal fields\<close>

text \<open>\<open>ProductType.resolve_price\<close> and \<open>OrderType.resolve_total_amount\<close>\<close>

definition resolve_price :: "Product \<Rightarrow> string" where
  "resolve_price p = decimal_str (p_price p)"

definition resolve_total_amount :: "Order \<Rightarrow> string" where
  "resolve_total_amount ord = decimal_str (o_total_amount ord)"

section \<open>Notions of the specification\<close>




definition customer_fields :: "Customer \<Rightarrow> string \<times> string \<times> string option" where
  "customer_fields c = (c_name c, c_email c, c_phone c)"

definition input_fields :: "CustomerInput \<Rightarrow> string \<times> string \<times> string option" where
  "input_fields d = (ci_name d, ci_email d, ci_phone d)"


text \<open>
  An id is written canonically when it is the text \<open>str\<close> prints for its number: \<open>1\<close> is,
  \<open>01\<close> and \<open>+1\<close> are not. A requested id is found when a stored product has its number
  as key.
\<close>

definition canonical_id :: "string \<Rightarrow> bool" where
  "canonical_id i = (case py_int i of None \<Rightarrow> False | Some k \<Rightarrow> str_int k = i)"

definition product_found :: "store \<Rightarrow> string \<Rightarrow> bool" where
  "product_found s i = list_ex (\<lambda>p. py_int i = Some (p_id p)) (products s)"

text \<open>A decimal fits the context when its coefficient has at most 28 digits.\<close>

definition fits_context :: "decimal \<Rightarrow> bool" where
  "fits_context d = (dec_int d < 10 ^ prec)"

text \<open>A sequence of \<open>createOrder\<close> calls, each with the outcomes of its store calls.\<close>

fun CreateOrder_calls ::
  "(faults \<times> OrderInput) list \<Rightarrow> store \<Rightarrow> (exn + CreateOrder) list \<times> store" where
  "CreateOrder_calls [] s = ([], s)"
| "CreateOrder_calls ((fs, input) # rest) s =
     (case CreateOrder_mutate fs s input of
        (r, s') \<Rightarrow> (case CreateOrder_calls rest s' of (rs, s'') \<Rightarrow> (r # rs, s'')))"

definition failed :: "exn + 'a \<Rightarrow> bool" where
  "failed r = (case r of Inl e \<Rightarrow> True | Inr v \<Rightarrow> False)"

section \<open>Properties of the phone validation\<close>

subsection \<open>What the matcher accepts\<close>

lemma ends_rep_exact_Digit:
  "set (ends (rep_exact k Digit) (n, s)) =
     (if k \<le> length s \<and> list_all is_digit (take k s) then {(n + k, drop k s)} else {})"
proof (induction k arbitrary: n s)
  case 0
  show ?case by simp
next
  case (Suc k)
  show ?case by (cases s) (simp_all add: Suc.IH)
qed

lemma ends_rep_upto_Digit:
  "set (ends (rep_upto k Digit) (n, s)) =
     {(n + j, drop j s) | j. j \<le> k \<and> j \<le> length s \<and> list_all is_digit (take j s)}"
proof (induction k arbitrary: n s)
  case 0
  show ?case by auto
next
  case (Suc k)
  show ?case
  proof (cases s)
    case Nil
    then show ?thesis by auto
  next
    case (Cons x xs)
    show ?thesis
    proof (intro set_eqI iffI)
      fix st assume "st \<in> set (ends (rep_upto (Suc k) Digit) (n, s))"
      then have "st = (n, s) \<or> (is_digit x \<and> st \<in> set (ends (rep_upto k Digit) (Suc n, xs)))"
        using Cons by (auto split: if_splits)
      then show "st \<in> {(n + j, drop j s) | j. j \<le> Suc k \<and> j \<le> length s \<and> list_all is_digit (take j s)}"
      proof
        assume "st = (n, s)"
        then show ?thesis by (auto intro: exI[of _ 0])
      next
        assume a: "is_digit x \<and> st \<in> set (ends (rep_upto k Digit) (Suc n, xs))"
        then obtain j where "st = (Suc n + j, drop j xs)" "j \<le> k" "j \<le> length xs" "list_all is_digit (take j xs)"
          unfolding Suc.IH by blast
        then show ?thesis using a Cons by (auto intro!: exI[of _ "Suc j"])
      qed
    next
      fix st assume "st \<in> {(n + j, drop j s) | j. j \<le> Suc k \<and> j \<le> length s \<and> list_all is_digit (take j s)}"
      then obtain j where j: "st = (n + j, drop j s)" "j \<le> Suc k" "j \<le> length s" "list_all is_digit (take j s)"
        by blast
      show "st \<in> set (ends (rep_upto (Suc k) Digit) (n, s))"
      proof (cases j)
        case 0
        then show ?thesis using j by simp
      next
        case (Suc i)
        then have "is_digit x" "(Suc n + i, drop i xs) \<in> set (ends (rep_upto k Digit) (Suc n, xs))"
          using j Cons unfolding Suc.IH by auto
        then show ?thesis using j Suc Cons by simp
      qed
    qed
  qed
qed

lemma ends_Rep_Digit:
  "m \<le> k \<Longrightarrow> set (ends (Rep m k Digit) (n, s)) =
     {(n + j, drop j s) | j. m \<le> j \<and> j \<le> k \<and> j \<le> length s \<and> list_all is_digit (take j s)}"
proof (intro set_eqI iffI)
  fix st assume mk: "m \<le> k" and "st \<in> set (ends (Rep m k Digit) (n, s))"
  then have c: "m \<le> length s" "list_all is_digit (take m s)"
    and "st \<in> set (ends (rep_upto (k - m) Digit) (n + m, drop m s))"
    by (auto simp: Rep_def ends_rep_exact_Digit split: if_splits)
  then obtain j where j: "st = (n + m + j, drop j (drop m s))" "j \<le> k - m" "j \<le> length (drop m s)"
     "list_all is_digit (take j (drop m s))"
    unfolding ends_rep_upto_Digit by blast
  have "take (m + j) s = take m s @ take j (drop m s)"
    by (simp add: take_add)
  then have "list_all is_digit (take (m + j) s)" using c j by simp
  then show "st \<in> {(n + j, drop j s) | j. m \<le> j \<and> j \<le> k \<and> j \<le> length s \<and> list_all is_digit (take j s)}"
    using j mk c by (auto intro!: exI[of _ "m + j"] simp: add.commute)
next
  fix st assume mk: "m \<le> k" and "st \<in> {(n + j, drop j s) | j. m \<le> j \<and> j \<le> k \<and> j \<le> length s \<and> list_all is_digit (take j s)}"
  then obtain j where j: "st = (n + j, drop j s)" "m \<le> j" "j \<le> k" "j \<le> length s" "list_all is_digit (take j s)"
    by blast
  have t: "take j s = take m s @ take (j - m) (drop m s)"
    using j by (metis le_add_diff_inverse take_add)
  have "(n + m + (j - m), drop (j - m) (drop m s)) \<in> set (ends (rep_upto (k - m) Digit) (n + m, drop m s))"
    unfolding ends_rep_upto_Digit using j t by (auto intro!: exI[of _ "j - m"])
  moreover have "m \<le> length s" "list_all is_digit (take m s)" using j t by auto
  ultimately show "st \<in> set (ends (Rep m k Digit) (n, s))"
    using j by (auto simp: Rep_def ends_rep_exact_Digit)
qed

lemma not_digit_newline: "\<not> is_digit (CHR 0x0A)"
  by (simp add: is_digit_def)

lemma ends_nonempty_Seq:
  "(ends (Seq a b) st \<noteq> []) = (\<exists>st' \<in> set (ends a st). ends b st' \<noteq> [])"
  by auto

lemma ends_Opt_Chr_Seq:
  "(ends (Seq (Opt (Chr c)) r) (n, s) \<noteq> []) =
     ((\<exists>t. s = c # t \<and> ends r (Suc n, t) \<noteq> []) \<or> ends r (n, s) \<noteq> [])"
  by (cases s) auto

lemma ends_Chr_Seq:
  "(ends (Seq (Chr c) r) (n, s) \<noteq> []) = (\<exists>t. s = c # t \<and> ends r (Suc n, t) \<noteq> [])"
  by (cases s) auto

lemma ends_digits_Eol:
  "(ends (Seq (Rep 9 15 Digit) Eol) (n, s) \<noteq> []) =
     (digits_9_15 s \<or> (\<exists>q. s = q @ [CHR 0x0A] \<and> digits_9_15 q))"
proof
  assume "ends (Seq (Rep 9 15 Digit) Eol) (n, s) \<noteq> []"
  then obtain st where "st \<in> set (ends (Rep 9 15 Digit) (n, s))" "ends Eol st \<noteq> []"
    unfolding ends_nonempty_Seq by blast
  then obtain j where j: "9 \<le> j" "j \<le> 15" "j \<le> length s" "list_all is_digit (take j s)"
      "tailok (drop j s)"
    by (auto simp: ends_Rep_Digit tailok_def split: if_splits)
  have s: "s = take j s @ drop j s" by simp
  show "digits_9_15 s \<or> (\<exists>q. s = q @ [CHR 0x0A] \<and> digits_9_15 q)"
  proof (cases "drop j s = []")
    case True
    then show ?thesis using j by (simp add: digits_9_15_def)
  next
    case False
    then have "drop j s = [CHR 0x0A]" using j by (simp add: tailok_def)
    then have "s = take j s @ [CHR 0x0A]" using s by metis
    moreover have "digits_9_15 (take j s)" using j by (simp add: digits_9_15_def)
    ultimately show ?thesis by blast
  qed
next
  assume a: "digits_9_15 s \<or> (\<exists>q. s = q @ [CHR 0x0A] \<and> digits_9_15 q)"
  then obtain q t where q: "s = q @ t" "tailok t" "digits_9_15 q"
    by (auto simp: tailok_def)
  then have "(n + length q, t) \<in> set (ends (Rep 9 15 Digit) (n, s))"
    by (auto simp: ends_Rep_Digit digits_9_15_def intro!: exI[of _ "length q"])
  moreover have "ends Eol (n + length q, t) \<noteq> []" using q by (simp add: tailok_def)
  ultimately show "ends (Seq (Rep 9 15 Digit) Eol) (n, s) \<noteq> []"
    unfolding ends_nonempty_Seq by blast
qed

lemma international_iff:
  "international p =
     (digits_9_15 p \<or> (\<exists>r. p = CHR ''+'' # r \<and> digits_9_15 r) \<or>
      (\<exists>r. p = CHR ''1'' # r \<and> digits_9_15 r) \<or>
      (\<exists>r. p = CHR ''+'' # CHR ''1'' # r \<and> digits_9_15 r))"
  apply (cases p)
   apply (simp add: international_def digits_9_15_def)
  subgoal for a p'
    apply (cases p')
     apply (auto simp add: international_def digits_9_15_def)
    done
  done

lemma ends_Bol_Seq: "ends (Seq Bol r) (0, s) = ends r (0, s)"
  by simp

lemma match_international:
  "(ends alt_international (0, p) \<noteq> []) =
     (international p \<or> (\<exists>q. p = q @ [CHR 0x0A] \<and> international q))"
  (is "?L = ?R")
proof
  assume ?L
  then show ?R
    unfolding alt_international_def ends_Bol_Seq ends_Opt_Chr_Seq ends_digits_Eol international_iff
    apply (elim disjE exE conjE)
           apply blast
          apply (metis append_Cons)
         apply blast
        apply (metis append_Cons)
       apply blast
      apply (metis append_Cons)
     apply blast
    apply blast
    done
next
  assume ?R
  then show ?L
    unfolding alt_international_def ends_Bol_Seq ends_Opt_Chr_Seq ends_digits_Eol international_iff
    by (elim disjE exE conjE) auto
qed

lemma ends_Rep_exact_Seq:
  "(ends (Seq (Rep m m Digit) r) (n, s) \<noteq> []) =
     (m \<le> length s \<and> list_all is_digit (take m s) \<and> ends r (n + m, drop m s) \<noteq> [])"
proof -
  have "set (ends (Rep m m Digit) (n, s)) =
          (if m \<le> length s \<and> list_all is_digit (take m s) then {(n + m, drop m s)} else {})"
    using ends_Rep_Digit[of m m n s] by auto
  then show ?thesis unfolding ends_nonempty_Seq by (simp only: split: if_splits) auto
qed

lemma ends_Eol_nonempty: "(ends Eol (n, s) \<noteq> []) = tailok s"
  by (simp add: tailok_def)

lemma dashed_iff:
  "dashed q = (\<exists>a b c. q = a @ CHR ''-'' # b @ CHR ''-'' # c \<and> dashed_parts a b c)"
proof
  assume d: "dashed q"
  let ?a = "take 3 q" and ?b = "take 3 (drop 4 q)" and ?c = "drop 8 q"
  have "q = take 3 q @ drop 3 q" by simp
  also have "drop 3 q = take 1 (drop 3 q) @ drop 4 q"
    using append_take_drop_id[of 1 "drop 3 q"] by simp
  also have "drop 4 q = take 3 (drop 4 q) @ drop 7 q"
    using append_take_drop_id[of 3 "drop 4 q"] by simp
  also have "drop 7 q = take 1 (drop 7 q) @ drop 8 q"
    using append_take_drop_id[of 1 "drop 7 q"] by simp
  finally have "q = ?a @ CHR ''-'' # ?b @ CHR ''-'' # ?c"
    using d by (simp add: dashed_def)
  moreover have "dashed_parts ?a ?b ?c" using d by (simp add: dashed_def dashed_parts_def)
  ultimately show "\<exists>a b c. q = a @ CHR ''-'' # b @ CHR ''-'' # c \<and> dashed_parts a b c"
    by blast
next
  assume "\<exists>a b c. q = a @ CHR ''-'' # b @ CHR ''-'' # c \<and> dashed_parts a b c"
  then show "dashed q" by (auto simp: dashed_def dashed_parts_def)
qed

lemma match_dashed_parts:
  "(ends alt_dashed (0, p) \<noteq> []) =
     (\<exists>a b c t. p = a @ CHR ''-'' # b @ CHR ''-'' # c @ t \<and> dashed_parts a b c \<and> tailok t)"
  (is "?L = ?R")
proof
  assume ?L
  then obtain t1 t2 where h: "3 \<le> length p" "list_all is_digit (take 3 p)" "drop 3 p = CHR ''-'' # t1"
     "3 \<le> length t1" "list_all is_digit (take 3 t1)" "drop 3 t1 = CHR ''-'' # t2"
     "4 \<le> length t2" "list_all is_digit (take 4 t2)" "tailok (drop 4 t2)"
    unfolding alt_dashed_def ends_Bol_Seq ends_Rep_exact_Seq ends_Chr_Seq ends_Eol_nonempty
    by auto
  have "p = take 3 p @ drop 3 p" by simp
  also have "drop 3 p = CHR ''-'' # take 3 t1 @ drop 3 t1" using h(3) by simp
  also have "drop 3 t1 = CHR ''-'' # take 4 t2 @ drop 4 t2" using h(6) by simp
  finally have "p = take 3 p @ CHR ''-'' # take 3 t1 @ CHR ''-'' # take 4 t2 @ drop 4 t2" .
  moreover have "dashed_parts (take 3 p) (take 3 t1) (take 4 t2)"
    using h by (simp add: dashed_parts_def)
  ultimately show ?R using h(9) by blast
next
  assume ?R
  then obtain a b c t where "p = a @ CHR ''-'' # b @ CHR ''-'' # c @ t" "dashed_parts a b c" "tailok t"
    by blast
  then show ?L
    unfolding alt_dashed_def ends_Bol_Seq ends_Rep_exact_Seq ends_Chr_Seq ends_Eol_nonempty
    by (simp add: dashed_parts_def)
qed

lemma match_dashed:
  "(ends alt_dashed (0, p) \<noteq> []) = (dashed p \<or> (\<exists>q. p = q @ [CHR 0x0A] \<and> dashed q))"
  unfolding match_dashed_parts dashed_iff tailok_def
  apply (intro iffI)
   apply (elim exE conjE disjE)
    apply simp
    apply blast
   apply (rule disjI2)
   apply simp
   apply (metis append_Cons append_assoc)
  apply (elim exE conjE disjE)
   apply (metis append_Nil2)
  apply (metis append_Cons append_assoc)
  done

lemma pattern_alt: "pattern = Alt alt_international alt_dashed"
  by (simp add: pattern_def alt_international_def alt_dashed_def)

lemma re_match_pattern:
  "re_match pattern p = (phone_format p \<or> (\<exists>q. p = q @ [CHR 0x0A] \<and> phone_format q))"
proof -
  have "re_match pattern p = (ends alt_international (0, p) \<noteq> [] \<or> ends alt_dashed (0, p) \<noteq> [])"
    by (simp add: re_match_def pattern_alt)
  then show ?thesis
    unfolding match_international match_dashed phone_format_def by blast
qed

text \<open>
  What \<open>validate_phone\<close> accepts, on strings of characters with codes below 256: the
  absent and the empty phone, a phone of one of the two formats, and such a phone
  followed by one final newline character.
\<close>

lemma validate_phone_accepts:
  "validate_phone phone =
     (case phone of None \<Rightarrow> True
      | Some p \<Rightarrow> p = [] \<or> phone_format p \<or> (\<exists>q. p = q @ [CHR 0x0A] \<and> phone_format q))"
  by (auto simp: validate_phone_def re_match_pattern split: option.splits)

text \<open>
  Claim C3 says that \<open>validate_phone\<close> is false for every non-empty string that has
  neither of the two formats. The code accepts \<open>123456789\<close> followed by a newline, which
  has neither: the pattern ends in \<open>$\<close>, which in Python also matches just before a
  newline that ends the string.
\<close>

theorem validate_phone_trailing_newline:
  "validate_phone (Some (''123456789'' @ [CHR 0x0A])) \<and>
   \<not> phone_format (''123456789'' @ [CHR 0x0A])"
  by code_simp

theorem validate_phone_trailing_newline_witness:
  "validate_phone (Some (''123456789'' @ [CHR 0x0A]))"
  using validate_phone_trailing_newline by (rule conjunct1)

section \<open>Properties of \<open>BulkCreateCustomers\<close>\<close>








section \<open>Properties of \<open>CreateCustomer\<close>\<close>

lemma CreateCustomer_invalid_phone:
  "\<not> validate_phone (ci_phone input) \<Longrightarrow>
     CreateCustomer_mutate fs s input = (Inl (ValidationError [S ''Invalid phone number format'']), s)"
  by (simp add: CreateCustomer_mutate_def)

lemma CreateCustomer_failure:
  "CreateCustomer_mutate fs s input = (Inl e, s') \<Longrightarrow> (\<exists>m. e = ValidationError m) \<and> s' = s"
  by (auto simp: CreateCustomer_mutate_def CreateCustomer_try_def except_Exception_def
        except_ValidationError_def Customer_email_exists_def Customer_create_def Let_def
      split: if_splits sum.splits option.splits exn.splits bool.splits prod.splits)

lemma CreateCustomer_email_exists:
  "list_ex (\<lambda>c. c_email c = ci_email input) (customers s) \<Longrightarrow>
     \<exists>m. CreateCustomer_mutate fs s input = (Inl (ValidationError m), s)"
  by (auto simp: CreateCustomer_mutate_def CreateCustomer_try_def except_Exception_def
        except_ValidationError_def Customer_email_exists_def
      split: if_splits sum.splits option.splits exn.splits bool.splits prod.splits)

lemma CreateCustomer_success:
  "validate_phone (ci_phone input) \<Longrightarrow>
   \<not> list_ex (\<lambda>c. c_email c = ci_email input) (customers s) \<Longrightarrow>
   fault fs 0 = None \<Longrightarrow> fault fs 1 = None \<Longrightarrow>
   CreateCustomer_mutate fs s input =
     (Inr \<lparr>cc_customer = \<lparr>c_id = next_pk (map c_id (customers s)), c_name = ci_name input,
                           c_email = ci_email input, c_phone = ci_phone input\<rparr>,
           cc_message = ''Customer created successfully''\<rparr>,
      s\<lparr>customers := customers s @
           [\<lparr>c_id = next_pk (map c_id (customers s)), c_name = ci_name input,
             c_email = ci_email input, c_phone = ci_phone input\<rparr>]\<rparr>)"
  by (simp add: CreateCustomer_mutate_def CreateCustomer_try_def except_Exception_def
        except_ValidationError_def Customer_email_exists_def Customer_create_def Let_def)

lemma fold_max_ge: "(x::int) \<in> set xs \<Longrightarrow> x \<le> fold max xs a"
proof (induction xs arbitrary: a)
  case Nil
  then show ?case by simp
next
  case (Cons y ys)
  have mono: "\<And>b. b \<le> fold max ys b"
  proof -
    fix b show "b \<le> fold max ys b"
      by (induction ys arbitrary: b) (auto intro: order_trans[OF max.cobounded2])
  qed
  show ?case
  proof (cases "x = y")
    case True
    then show ?thesis using mono[of "max y a"] by simp
  next
    case False
    then show ?thesis using Cons by simp
  qed
qed

lemma next_pk_fresh: "next_pk ids \<notin> set ids"
proof
  assume "next_pk ids \<in> set ids"
  then have "next_pk ids \<le> fold max ids 0" by (rule fold_max_ge)
  then show False by (simp add: next_pk_def)
qed

text \<open>
  Claim C5. \<open>createCustomer\<close> raises a validation error and leaves the store as it is
  when the phone is invalid, and also when a stored customer has the email of the input,
  whatever the other fields are and whatever the store calls do. Otherwise, when the
  store raises nothing, it adds one customer with the fields of the input and a new key
  to the stored customers, changes nothing else, and returns that customer with the
  message \<open>Customer created successfully\<close>.
\<close>

theorem CreateCustomer_contract:
  "(\<not> validate_phone (ci_phone input) \<or>
    list_ex (\<lambda>c. c_email c = ci_email input) (customers s) \<longrightarrow>
      (\<exists>m. CreateCustomer_mutate fs s input = (Inl (ValidationError m), s))) \<and>
   (validate_phone (ci_phone input) \<and>
    \<not> list_ex (\<lambda>c. c_email c = ci_email input) (customers s) \<and>
    fault fs 0 = None \<and> fault fs 1 = None \<longrightarrow>
      (\<exists>c. CreateCustomer_mutate fs s input =
              (Inr \<lparr>cc_customer = c, cc_message = ''Customer created successfully''\<rparr>,
               s\<lparr>customers := customers s @ [c]\<rparr>) \<and>
           customer_fields c = input_fields input \<and>
           c_id c \<notin> set (map c_id (customers s))))"
proof (intro conjI impI)
  assume "\<not> validate_phone (ci_phone input) \<or>
    list_ex (\<lambda>c. c_email c = ci_email input) (customers s)"
  then show "\<exists>m. CreateCustomer_mutate fs s input = (Inl (ValidationError m), s)"
    using CreateCustomer_invalid_phone CreateCustomer_email_exists by blast
next
  assume a: "validate_phone (ci_phone input) \<and>
    \<not> list_ex (\<lambda>c. c_email c = ci_email input) (customers s) \<and>
    fault fs 0 = None \<and> fault fs 1 = None"
  let ?c = "\<lparr>c_id = next_pk (map c_id (customers s)), c_name = ci_name input,
              c_email = ci_email input, c_phone = ci_phone input\<rparr>"
  have "CreateCustomer_mutate fs s input =
          (Inr \<lparr>cc_customer = ?c, cc_message = ''Customer created successfully''\<rparr>,
           s\<lparr>customers := customers s @ [?c]\<rparr>)"
    using a CreateCustomer_success by blast
  moreover have "customer_fields ?c = input_fields input"
    by (simp add: customer_fields_def input_fields_def)
  moreover have "c_id ?c \<notin> set (map c_id (customers s))"
    using next_pk_fresh [of "map c_id (customers s)"] by simp
  ultimately show "\<exists>c. CreateCustomer_mutate fs s input =
              (Inr \<lparr>cc_customer = c, cc_message = ''Customer created successfully''\<rparr>,
               s\<lparr>customers := customers s @ [c]\<rparr>) \<and>
           customer_fields c = input_fields input \<and>
           c_id c \<notin> set (map c_id (customers s))"
    by blast
qed

theorem CreateCustomer_contract_witness:
  "(\<exists>m. CreateCustomer_mutate []
          \<lparr>customers = [\<lparr>c_id = 1, c_name = ''Ann'', c_email = ''a@x.org'', c_phone = None\<rparr>],
           products = [], orders = []\<rparr>
          \<lparr>ci_name = ''Bob'', ci_email = ''a@x.org'', ci_phone = Some ''123-456-7890''\<rparr>
        = (Inl (ValidationError m),
           \<lparr>customers = [\<lparr>c_id = 1, c_name = ''Ann'', c_email = ''a@x.org'', c_phone = None\<rparr>],
            products = [], orders = []\<rparr>)) \<and>
   (\<exists>c. CreateCustomer_mutate []
          \<lparr>customers = [\<lparr>c_id = 1, c_name = ''Ann'', c_email = ''a@x.org'', c_phone = None\<rparr>],
           products = [], orders = []\<rparr>
          \<lparr>ci_name = ''Bob'', ci_email = ''b@x.org'', ci_phone = Some ''123-456-7890''\<rparr>
        = (Inr \<lparr>cc_customer = c, cc_message = ''Customer created successfully''\<rparr>,
           \<lparr>customers = [\<lparr>c_id = 1, c_name = ''Ann'', c_email = ''a@x.org'', c_phone = None\<rparr>, c],
            products = [], orders = []\<rparr>) \<and>
        customer_fields c = (''Bob'', ''b@x.org'', Some ''123-456-7890'') \<and> c_id c \<noteq> 1)"
proof -
  have v: "validate_phone (Some ''123-456-7890'')" by code_simp
  show ?thesis
    using v
      CreateCustomer_contract [of
        "\<lparr>ci_name = ''Bob'', ci_email = ''a@x.org'', ci_phone = Some ''123-456-7890''\<rparr>"
        "\<lparr>customers = [\<lparr>c_id = 1, c_name = ''Ann'', c_email = ''a@x.org'', c_phone = None\<rparr>],
           products = [], orders = []\<rparr>" "[]"]
      CreateCustomer_contract [of
        "\<lparr>ci_name = ''Bob'', ci_email = ''b@x.org'', ci_phone = Some ''123-456-7890''\<rparr>"
        "\<lparr>customers = [\<lparr>c_id = 1, c_name = ''Ann'', c_email = ''a@x.org'', c_phone = None\<rparr>],
           products = [], orders = []\<rparr>" "[]"]
    by (simp add: fault_def input_fields_def)
qed

section \<open>Properties of \<open>CreateProduct\<close>\<close>

lemma dec_val_Decimal_str_float: "dec_val (Decimal_str_float x) = float_val x"
proof -
  let ?n = "int (ndigits (f_digits x))"
  have "f_decpt x \<ge> ?n \<Longrightarrow>
     (of_nat (f_digits x * 10 ^ nat (f_decpt x - ?n + 1)) :: rat) * 10 powi (- 1) =
       of_nat (f_digits x) * 10 powi (f_decpt x - ?n)"
  proof -
    assume a: "f_decpt x \<ge> ?n"
    have "(10::rat) ^ nat (f_decpt x - ?n + 1) = 10 powi (f_decpt x - ?n + 1)"
      using a by (simp add: power_int_def)
    also have "\<dots> = 10 powi (f_decpt x - ?n) * 10"
      by (simp add: power_int_add)
    finally show ?thesis by simp
  qed
  then show ?thesis
    by (simp add: dec_val_def float_val_def Decimal_str_float_def Let_def)
qed

lemma CreateProduct_invalid:
  "float_le_0 (pi_price input) \<or> pi_stock input < 0 \<Longrightarrow>
     \<exists>m. CreateProduct_mutate fs s input = (Inl (ValidationError m), s)"
  by (auto simp: CreateProduct_mutate_def)

lemma CreateProduct_success:
  "\<not> float_le_0 (pi_price input) \<Longrightarrow> 0 \<le> pi_stock input \<Longrightarrow> fault fs 0 = None \<Longrightarrow>
   CreateProduct_mutate fs s input =
     (Inr \<lparr>cp_product = \<lparr>p_id = next_pk (map p_id (products s)), p_name = pi_name input,
            p_price = Decimal_str_float (pi_price input), p_stock = pi_stock input\<rparr>\<rparr>,
      s\<lparr>products := products s @ [\<lparr>p_id = next_pk (map p_id (products s)), p_name = pi_name input,
            p_price = Decimal_str_float (pi_price input), p_stock = pi_stock input\<rparr>]\<rparr>)"
  by (simp add: CreateProduct_mutate_def Product_create_def except_ValidationError_def Let_def)

text \<open>
  Claim C6. \<open>createProduct\<close> raises a validation error and leaves the store as it is when
  the price is at most 0 or the stock is negative. Otherwise, when the store raises
  nothing, it adds one product to the store and returns it; the price of the product is
  the decimal read from the text \<open>str\<close> prints for the float, and its value is exactly
  the value that text denotes.
\<close>

theorem CreateProduct_contract:
  "(float_le_0 (pi_price input) \<or> pi_stock input < 0 \<longrightarrow>
      (\<exists>m. CreateProduct_mutate fs s input = (Inl (ValidationError m), s))) \<and>
   (\<not> float_le_0 (pi_price input) \<and> 0 \<le> pi_stock input \<and> fault fs 0 = None \<longrightarrow>
      (\<exists>p. CreateProduct_mutate fs s input =
              (Inr \<lparr>cp_product = p\<rparr>, s\<lparr>products := products s @ [p]\<rparr>) \<and>
           p_name p = pi_name input \<and> p_stock p = pi_stock input \<and>
           p_price p = Decimal_str_float (pi_price input) \<and>
           dec_val (p_price p) = float_val (pi_price input)))"
proof (intro conjI impI)
  assume "float_le_0 (pi_price input) \<or> pi_stock input < 0"
  then show "\<exists>m. CreateProduct_mutate fs s input = (Inl (ValidationError m), s)"
    by (rule CreateProduct_invalid)
next
  assume a: "\<not> float_le_0 (pi_price input) \<and> 0 \<le> pi_stock input \<and> fault fs 0 = None"
  let ?p = "\<lparr>p_id = next_pk (map p_id (products s)), p_name = pi_name input,
            p_price = Decimal_str_float (pi_price input), p_stock = pi_stock input\<rparr>"
  have "CreateProduct_mutate fs s input =
          (Inr \<lparr>cp_product = ?p\<rparr>, s\<lparr>products := products s @ [?p]\<rparr>)"
    using a CreateProduct_success by blast
  moreover have "dec_val (p_price ?p) = float_val (pi_price input)"
    by (simp add: dec_val_Decimal_str_float)
  ultimately show "\<exists>p. CreateProduct_mutate fs s input =
              (Inr \<lparr>cp_product = p\<rparr>, s\<lparr>products := products s @ [p]\<rparr>) \<and>
           p_name p = pi_name input \<and> p_stock p = pi_stock input \<and>
           p_price p = Decimal_str_float (pi_price input) \<and>
           dec_val (p_price p) = float_val (pi_price input)"
    by (intro exI[of _ ?p]) simp
qed

lemma ndigits_999: "ndigits 999 = 3"
  by (simp add: ndigits.simps)

lemma str_nat_999: "str_nat 999 = ''999''"
  by (simp add: str_nat.simps digit_char_def)

theorem CreateProduct_contract_witness:
  "(\<exists>m. CreateProduct_mutate [] \<lparr>customers = [], products = [], orders = []\<rparr>
           \<lparr>pi_name = ''Widget'', pi_price = \<lparr>f_negative = False, f_digits = 0, f_decpt = 1\<rparr>,
            pi_stock = 5\<rparr>
         = (Inl (ValidationError m), \<lparr>customers = [], products = [], orders = []\<rparr>)) \<and>
   (\<exists>m. CreateProduct_mutate [] \<lparr>customers = [], products = [], orders = []\<rparr>
           \<lparr>pi_name = ''Widget'', pi_price = \<lparr>f_negative = False, f_digits = 999, f_decpt = 1\<rparr>,
            pi_stock = - 1\<rparr>
         = (Inl (ValidationError m), \<lparr>customers = [], products = [], orders = []\<rparr>)) \<and>
   (\<exists>p. CreateProduct_mutate [] \<lparr>customers = [], products = [], orders = []\<rparr>
           \<lparr>pi_name = ''Widget'', pi_price = \<lparr>f_negative = False, f_digits = 999, f_decpt = 1\<rparr>,
            pi_stock = 5\<rparr>
         = (Inr \<lparr>cp_product = p\<rparr>, \<lparr>customers = [], products = [p], orders = []\<rparr>) \<and>
        resolve_price p = ''9.99'')"
proof -
  let ?s = "\<lparr>customers = [], products = [], orders = []\<rparr>"
  let ?free = "\<lparr>pi_name = ''Widget'', pi_price = \<lparr>f_negative = False, f_digits = 0, f_decpt = 1\<rparr>,
            pi_stock = 5\<rparr>"
  let ?short = "\<lparr>pi_name = ''Widget'', pi_price = \<lparr>f_negative = False, f_digits = 999, f_decpt = 1\<rparr>,
            pi_stock = - 1\<rparr>"
  let ?good = "\<lparr>pi_name = ''Widget'', pi_price = \<lparr>f_negative = False, f_digits = 999, f_decpt = 1\<rparr>,
            pi_stock = 5\<rparr>"
  obtain m1 where a: "CreateProduct_mutate [] ?s ?free = (Inl (ValidationError m1), ?s)"
    using CreateProduct_contract [of ?free "[]" ?s] by (auto simp: float_le_0_def)
  obtain m2 where b: "CreateProduct_mutate [] ?s ?short = (Inl (ValidationError m2), ?s)"
    using CreateProduct_contract [of ?short "[]" ?s] by auto
  obtain p where c: "CreateProduct_mutate [] ?s ?good =
        (Inr \<lparr>cp_product = p\<rparr>, ?s\<lparr>products := products ?s @ [p]\<rparr>)"
      "p_price p = Decimal_str_float (pi_price ?good)"
    using CreateProduct_contract [of ?good "[]" ?s] by (auto simp: float_le_0_def fault_def)
  have "resolve_price p = ''9.99''"
    using c(2) by (simp add: resolve_price_def Decimal_str_float_def decimal_str_def
        ndigits_999 str_nat_999 Let_def)
  then show ?thesis using a b c(1) by auto
qed

lemma CreateCustomer_wraps_store_error:
  "validate_phone (ci_phone input) \<Longrightarrow> fault fs 0 = Some (Exception m) \<Longrightarrow>
     CreateCustomer_mutate fs s input =
       (Inl (ValidationError [S ''Error creating customer: '', StrOf (Exception m)]), s)"
  by (simp add: CreateCustomer_mutate_def CreateCustomer_try_def Customer_email_exists_def
        except_ValidationError_def except_Exception_def)

lemma CreateOrder_wraps_store_error:
  "py_int (oi_customer_id input) = Some k \<Longrightarrow> fault fs 0 = Some (Exception m) \<Longrightarrow>
     CreateOrder_mutate fs s input =
       (Inl (ValidationError [S ''Error creating order: '', StrOf (Exception m)]), s)"
  by (simp add: CreateOrder_mutate_def CreateOrder_try_def Customer_get_def
        except_ValidationError_def except_Exception_def)

text \<open>
  Claim C8 says that every mutation but the bulk one re-raises an exception of the store
  that is no validation error as a validation error with a descriptive message.
  \<open>createCustomer\<close> and \<open>createOrder\<close> do, as the two lemmas above show, and the
  bulk mutation collects such exceptions per record (claim C4). \<open>createProduct\<close> does
  not: its \<open>try\<close> block has a handler for \<open>ValidationError\<close> only, so the exception of
  the store leaves the mutation as it is.
\<close>

theorem CreateProduct_store_error_propagates:
  "\<not> float_le_0 (pi_price input) \<Longrightarrow> 0 \<le> pi_stock input \<Longrightarrow>
   fault fs 0 = Some (Exception m) \<Longrightarrow>
     CreateProduct_mutate fs s input = (Inl (Exception m), s)"
  by (simp add: CreateProduct_mutate_def Product_create_def except_ValidationError_def)

theorem CreateProduct_store_error_propagates_witness:
  "CreateProduct_mutate [Some (Exception [S ''database is locked''])]
     \<lparr>customers = [], products = [], orders = []\<rparr>
     \<lparr>pi_name = ''Widget'', pi_price = \<lparr>f_negative = False, f_digits = 999, f_decpt = 1\<rparr>,
      pi_stock = 5\<rparr>
   = (Inl (Exception [S ''database is locked'']), \<lparr>customers = [], products = [], orders = []\<rparr>)"
  using CreateProduct_store_error_propagates [of
      "\<lparr>pi_name = ''Widget'', pi_price = \<lparr>f_negative = False, f_digits = 999, f_decpt = 1\<rparr>,
      pi_stock = 5\<rparr>" "[Some (Exception [S ''database is locked''])]" "[S ''database is locked'']"
      "\<lparr>customers = [], products = [], orders = []\<rparr>"]
  by (simp add: fault_def float_le_0_def)

section \<open>Properties of \<open>CreateOrder\<close>\<close>

lemma atomic_failure: "atomic s body = (Inl e, s') \<Longrightarrow> s' = s"
  by (auto simp: atomic_def split: prod.splits sum.splits)

lemma CreateOrder_try_failure: "CreateOrder_try fs s input = (Inl e, s') \<Longrightarrow> s' = s"
  by (auto simp: CreateOrder_try_def dest: atomic_failure
      split: sum.splits option.splits if_splits prod.splits)

lemma except_ValidationError_store:
  "except_ValidationError r = (x, s') \<Longrightarrow> snd r = s' \<and> (failed x = failed (fst r))"
  by (auto simp: except_ValidationError_def failed_def split: prod.splits sum.splits exn.splits)

lemma except_Exception_store:
  "except_Exception p r = (x, s') \<Longrightarrow> snd r = s' \<and> (failed x = failed (fst r))"
  by (auto simp: except_Exception_def failed_def split: prod.splits sum.splits exn.splits)

lemma CreateOrder_failure: "CreateOrder_mutate fs s input = (Inl e, s') \<Longrightarrow> s' = s"
proof -
  assume a: "CreateOrder_mutate fs s input = (Inl e, s')"
  obtain x t where x: "except_ValidationError (CreateOrder_try fs s input) = (x, t)"
    by (cases "except_ValidationError (CreateOrder_try fs s input)")
  obtain y u where y: "CreateOrder_try fs s input = (y, u)"
    by (cases "CreateOrder_try fs s input")
  have "t = s'" "failed x"
    using a x except_Exception_store [of "''Error creating order: ''" "(x, t)" "Inl e" s']
    by (simp_all add: CreateOrder_mutate_def failed_def)
  then have "u = s'" "failed y"
    using x y except_ValidationError_store [of "(y, u)" x t] by simp_all
  then obtain e' where "y = Inl e'" by (cases y) (simp_all add: failed_def)
  then show "s' = s" using y \<open>u = s'\<close> CreateOrder_try_failure by blast
qed

lemma CreateOrder_failure_is_ValidationError:
  "CreateOrder_mutate fs s input = (Inl e, s') \<Longrightarrow> \<exists>m. e = ValidationError m"
  by (cases "CreateOrder_try fs s input")
     (auto simp: CreateOrder_mutate_def except_Exception_def except_ValidationError_def
        split: sum.splits exn.splits)

lemma CreateOrder_no_products:
  "oi_product_ids input = [] \<Longrightarrow> \<exists>e. CreateOrder_mutate fs s input = (Inl e, s)"
  by (auto simp: CreateOrder_mutate_def CreateOrder_try_def except_Exception_def
        except_ValidationError_def
      split: sum.splits option.splits exn.splits)

lemma CreateOrder_calls_failed:
  "list_all failed (fst (CreateOrder_calls calls s)) \<Longrightarrow> snd (CreateOrder_calls calls s) = s"
proof (induction calls arbitrary: s)
  case Nil
  show ?case by simp
next
  case (Cons c calls)
  obtain fs input where c: "c = (fs, input)" by (cases c)
  obtain r s1 where r: "CreateOrder_mutate fs s input = (r, s1)"
    by (cases "CreateOrder_mutate fs s input")
  from Cons.prems have f: "failed r" "list_all failed (fst (CreateOrder_calls calls s1))"
    using c r by (simp_all split: prod.splits)
  from f(1) obtain e where "r = Inl e" by (cases r) (simp_all add: failed_def)
  then have "s1 = s" using r CreateOrder_failure by blast
  then show ?case using c r f(2) Cons.IH [of s] by (auto split: prod.splits)
qed

text \<open>
  Claim C7. A \<open>createOrder\<close> call that raises leaves the store exactly as it was: every
  exception before the atomic block comes before any write, and an exception inside the
  block rolls the block back. A call with an empty list of product ids always raises.
  Repeating failing calls, with the same or other inputs, never changes the store, so
  the number of stored orders stays the same.
\<close>

theorem CreateOrder_failure_leaves_store:
  "(CreateOrder_mutate fs s input = (Inl e, s') \<longrightarrow> s' = s) \<and>
   (oi_product_ids input = [] \<longrightarrow> (\<exists>e. CreateOrder_mutate fs s input = (Inl e, s))) \<and>
   (list_all failed (fst (CreateOrder_calls calls s)) \<longrightarrow>
      snd (CreateOrder_calls calls s) = s \<and>
      length (orders (snd (CreateOrder_calls calls s))) = length (orders s))"
  using CreateOrder_failure [of fs s input e s'] CreateOrder_no_products [of input fs s]
    CreateOrder_calls_failed [of calls s]
  by auto

lemma below_10: "(d::nat) < 10 \<Longrightarrow> d \<in> {0, 1, 2, 3, 4, 5, 6, 7, 8, 9}"
  by auto

lemma digit_char_props:
  "d < 10 \<Longrightarrow> is_digit (digit_char d) \<and> digit_val (digit_char d) = d \<and> \<not> is_space (digit_char d)
     \<and> digit_char d \<noteq> CHR ''-'' \<and> digit_char d \<noteq> CHR ''+''"
  by (drule below_10) (auto simp: digit_char_def is_digit_def digit_val_def is_space_def)

lemma str_nat_digits: "list_all is_digit (str_nat n) \<and> str_nat n \<noteq> []"
proof (induction n rule: str_nat.induct)
  case (1 n)
  show ?case
  proof (cases "n < 10")
    case True
    then show ?thesis using digit_char_props [of n] by (simp add: str_nat.simps [of n])
  next
    case False
    then show ?thesis using 1 digit_char_props [of "n mod 10"]
      by (simp add: str_nat.simps [of n])
  qed
qed

lemma parse_digits_digits:
  "list_all is_digit xs \<Longrightarrow> xs \<noteq> [] \<Longrightarrow>
     parse_digits acc prev xs = Some (foldl (\<lambda>a c. a * 10 + digit_val c) acc xs)"
proof (induction xs arbitrary: acc prev)
  case Nil
  then show ?case by simp
next
  case (Cons x xs)
  show ?case
  proof (cases "xs = []")
    case True
    then show ?thesis using Cons.prems by simp
  next
    case False
    have "parse_digits (acc * 10 + digit_val x) True xs =
            Some (foldl (\<lambda>a c. a * 10 + digit_val c) (acc * 10 + digit_val x) xs)"
      using Cons.prems False by (intro Cons.IH) simp_all
    then show ?thesis using Cons.prems by simp
  qed
qed

lemma foldl_str_nat: "foldl (\<lambda>a c. a * 10 + digit_val c) 0 (str_nat n) = n"
proof (induction n rule: str_nat.induct)
  case (1 n)
  show ?case
  proof (cases "n < 10")
    case True
    then show ?thesis using digit_char_props [of n] by (simp add: str_nat.simps [of n])
  next
    case False
    then show ?thesis using 1 digit_char_props [of "n mod 10"]
      by (simp add: str_nat.simps [of n])
  qed
qed

lemma parse_digits_str_nat: "parse_digits 0 False (str_nat n) = Some n"
  using parse_digits_digits [of "str_nat n" 0 False] str_nat_digits [of n] foldl_str_nat [of n]
  by simp

lemma dropWhile_id: "xs \<noteq> [] \<Longrightarrow> \<not> P (hd xs) \<Longrightarrow> dropWhile P xs = xs"
  by (cases xs) auto

lemma strip_id: "xs \<noteq> [] \<Longrightarrow> \<not> is_space (hd xs) \<Longrightarrow> \<not> is_space (last xs) \<Longrightarrow> strip xs = xs"
  by (simp add: strip_def dropWhile_id hd_rev)

lemma is_digit_not_space: "is_digit c \<Longrightarrow> \<not> is_space c \<and> c \<noteq> CHR ''-'' \<and> c \<noteq> CHR ''+''"
  by (auto simp: is_digit_def is_space_def)

lemma str_nat_ends: "is_digit (hd (str_nat n)) \<and> is_digit (last (str_nat n))"
  using str_nat_digits [of n]
  by (cases "str_nat n") (auto simp: list_all_iff)

lemma py_int_str_int: "py_int (str_int k) = Some k"
proof (cases "k < 0")
  case True
  let ?t = "str_nat (nat (- k))"
  have l: "last (CHR ''-'' # ?t) = last ?t" using str_nat_digits [of "nat (- k)"] by simp
  have "strip (CHR ''-'' # ?t) = CHR ''-'' # ?t"
    using str_nat_ends [of "nat (- k)"] is_digit_not_space l
    by (intro strip_id) (auto simp: is_space_def)
  then show ?thesis using True by (simp add: py_int_def str_int_def parse_digits_str_nat)
next
  case False
  let ?t = "str_nat (nat k)"
  obtain c cs where t: "?t = c # cs" using str_nat_digits [of "nat k"] by (cases ?t) auto
  have d: "is_digit c" using str_nat_ends [of "nat k"] t by simp
  have "strip ?t = ?t"
    using str_nat_ends [of "nat k"] is_digit_not_space str_nat_digits [of "nat k"]
    by (intro strip_id) auto
  then have "py_int ?t = map_option int (parse_digits 0 False ?t)"
    using t d is_digit_not_space [of c] by (simp add: py_int_def)
  then show ?thesis using False by (simp add: str_int_def parse_digits_str_nat)
qed

lemma CreateOrder_missing:
  assumes "Customer_get (fault fs 0) s (oi_customer_id input) = Inr (Some c)"
    and "oi_product_ids input \<noteq> []"
    and "Product_filter_id_in (fault fs 1) s (oi_product_ids input) = Inr ps"
    and "length ps \<noteq> length (oi_product_ids input)"
  shows "CreateOrder_mutate fs s input =
           (Inl (ValidationError [StrOf (ValidationError
              [S (''Products not found: '' @
                  join '', '' (missing_products (oi_product_ids input) ps))])]), s)"
  using assms
  by (simp add: CreateOrder_mutate_def CreateOrder_try_def except_Exception_def
        except_ValidationError_def)

lemma missing_products_set:
  "distinct (missing_products ids ps) \<and>
   set (missing_products ids ps) = set ids - set (map (\<lambda>p. str_int (p_id p)) ps)"
  by (auto simp: missing_products_def)

lemma filter_id_in_ok:
  assumes "list_all (\<lambda>i. py_int i \<noteq> None) ids"
  shows "Product_filter_id_in None s ids =
           Inr (filter (\<lambda>p. Some (p_id p) \<in> set (map py_int ids)) (products s))"
proof -
  have "find (\<lambda>i. py_int i = None) ids = None"
    using assms by (auto simp: find_None_iff list_all_iff)
  then show ?thesis by (simp add: Product_filter_id_in_def)
qed

lemma filter_id_in_length:
  assumes "distinct (map p_id (products s))"
  shows "length (filter (\<lambda>p. Some (p_id p) \<in> set (map py_int ids)) (products s))
           \<le> card (set (map py_int ids))"
proof -
  let ?ps = "filter (\<lambda>p. Some (p_id p) \<in> set (map py_int ids)) (products s)"
  have d: "distinct (map p_id ?ps)" using assms by (rule distinct_map_filter)
  have "distinct (map (\<lambda>p. Some (p_id p)) ?ps)"
    using d by (simp add: distinct_map inj_on_def)
  then have "length ?ps = card (set (map (\<lambda>p. Some (p_id p)) ?ps))"
    by (metis distinct_card length_map)
  also have "\<dots> \<le> card (set (map py_int ids))"
    by (intro card_mono) auto
  finally show ?thesis .
qed

lemma not_distinct_card: "\<not> distinct xs \<Longrightarrow> card (set xs) < length xs"
  using card_length [of xs] card_distinct [of xs] by (cases "card (set xs) = length xs") auto

lemma card_set_map_le: "card (set (map f xs)) \<le> card (set xs)"
  by (simp add: card_image_le)

lemma duplicate_existing_ids_fail:
  assumes "wf_store s"
    and "Customer_get (fault fs 0) s (oi_customer_id input) = Inr (Some c)"
    and "fault fs 1 = None"
    and "\<not> distinct (oi_product_ids input)"
    and "list_all (\<lambda>i. i \<in> set (map (\<lambda>p. str_int (p_id p)) (products s))) (oi_product_ids input)"
  shows "CreateOrder_mutate fs s input =
           (Inl (ValidationError [StrOf (ValidationError [S ''Products not found: ''])]), s)"
proof -
  let ?ids = "oi_product_ids input"
  let ?ps = "filter (\<lambda>p. Some (p_id p) \<in> set (map py_int ?ids)) (products s)"
  have canon: "\<And>i. i \<in> set ?ids \<Longrightarrow> \<exists>p \<in> set (products s). i = str_int (p_id p)"
    using assms(5) by (auto simp: list_all_iff)
  have parse: "list_all (\<lambda>i. py_int i \<noteq> None) ?ids"
    unfolding list_all_iff
  proof
    fix i assume "i \<in> set ?ids"
    then obtain p :: Product where "i = str_int (p_id p)" using canon by blast
    then show "py_int i \<noteq> None" by (simp add: py_int_str_int)
  qed
  have f: "Product_filter_id_in (fault fs 1) s ?ids = Inr ?ps"
    using assms(3) filter_id_in_ok [OF parse] by simp
  have "length ?ps \<le> card (set (map py_int ?ids))"
    using assms(1) by (intro filter_id_in_length) (simp add: wf_store_def)
  also have "\<dots> \<le> card (set ?ids)" by (rule card_set_map_le)
  also have "\<dots> < length ?ids" using assms(4) by (rule not_distinct_card)
  finally have len: "length ?ps \<noteq> length ?ids" by simp
  have ne: "?ids \<noteq> []" using assms(4) by auto
  have "\<And>i. i \<in> set ?ids \<Longrightarrow> i \<in> set (map (\<lambda>p. str_int (p_id p)) ?ps)"
  proof -
    fix i assume i: "i \<in> set ?ids"
    then obtain p where p: "p \<in> set (products s)" "i = str_int (p_id p)" using canon by blast
    then have "py_int i = Some (p_id p)" by (simp add: py_int_str_int)
    then have "Some (p_id p) \<in> set (map py_int ?ids)" using i by (metis image_eqI set_map)
    then have "p \<in> set ?ps" using p(1) by simp
    then show "i \<in> set (map (\<lambda>p. str_int (p_id p)) ?ps)" using p(2) by auto
  qed
  then have "missing_products ?ids ?ps = []"
    by (simp add: missing_products_def filter_empty_conv)
  then show ?thesis
    using CreateOrder_missing [OF assms(2) ne f len] by simp
qed

lemma filter_id_in_Inr:
  "Product_filter_id_in f s ids = Inr ps \<Longrightarrow>
     ps = filter (\<lambda>p. Some (p_id p) \<in> set (map py_int ids)) (products s)"
  by (auto simp: Product_filter_id_in_def split: option.splits)

lemma canonical_id_str: "canonical_id i \<Longrightarrow> \<exists>k. py_int i = Some k \<and> str_int k = i"
  by (auto simp: canonical_id_def split: option.splits)

lemma canonical_fetched_iff:
  assumes "canonical_id i" and "i \<in> set ids"
    and "ps = filter (\<lambda>p. Some (p_id p) \<in> set (map py_int ids)) (products s)"
  shows "(i \<in> set (map (\<lambda>p. str_int (p_id p)) ps)) = product_found s i"
proof
  assume "i \<in> set (map (\<lambda>p. str_int (p_id p)) ps)"
  then obtain p where p: "p \<in> set ps" "i = str_int (p_id p)" by auto
  then have "p \<in> set (products s)" using assms(3) by simp
  moreover have "py_int i = Some (p_id p)" using p(2) by (simp add: py_int_str_int)
  ultimately show "product_found s i" by (auto simp: product_found_def list_ex_iff)
next
  assume "product_found s i"
  then obtain p where p: "p \<in> set (products s)" "py_int i = Some (p_id p)"
    by (auto simp: product_found_def list_ex_iff)
  obtain k where k: "py_int i = Some k" "str_int k = i"
    using assms(1) canonical_id_str by blast
  have e: "str_int (p_id p) = i" using p(2) k by simp
  have "Some (p_id p) \<in> set (map py_int ids)"
    using assms(2) p(2) by (metis image_eqI set_map)
  then have "p \<in> set ps" using p(1) assms(3) by simp
  then show "i \<in> set (map (\<lambda>p. str_int (p_id p)) ps)" using e by force
qed

text \<open>
  Claim C2, as the code has it. When the customer is found, the list of ids is not empty,
  every id is written canonically, and the number of products fetched for the ids
  differs from the number of ids, \<open>createOrder\<close> raises a validation error and leaves the
  store as it is. The message of the error is \<open>Products not found:\<close> followed by a list
  of ids, each once, separated by commas: exactly the requested ids for which the store
  has no product.
\<close>

theorem CreateOrder_products_not_found:
  assumes "Customer_get (fault fs 0) s (oi_customer_id input) = Inr (Some c)"
    and "oi_product_ids input \<noteq> []"
    and "list_all canonical_id (oi_product_ids input)"
    and "Product_filter_id_in (fault fs 1) s (oi_product_ids input) = Inr ps"
    and "length ps \<noteq> length (oi_product_ids input)"
  shows "\<exists>names. CreateOrder_mutate fs s input =
           (Inl (ValidationError [StrOf (ValidationError
              [S (''Products not found: '' @ join '', '' names)])]), s) \<and>
         distinct names \<and>
         set names = {i \<in> set (oi_product_ids input). \<not> product_found s i}"
proof -
  let ?ids = "oi_product_ids input"
  let ?names = "missing_products ?ids ps"
  have ps: "ps = filter (\<lambda>p. Some (p_id p) \<in> set (map py_int ?ids)) (products s)"
    using assms(4) by (rule filter_id_in_Inr)
  have "set ?names = {i \<in> set ?ids. \<not> product_found s i}"
  proof (intro set_eqI iffI)
    fix i assume "i \<in> set ?names"
    then have i: "i \<in> set ?ids" "i \<notin> set (map (\<lambda>p. str_int (p_id p)) ps)"
      using missing_products_set [of ?ids ps] by auto
    then have "canonical_id i" using assms(3) by (simp add: list_all_iff)
    then have "\<not> product_found s i" using canonical_fetched_iff [OF _ i(1) ps] i(2) by simp
    then show "i \<in> {i \<in> set ?ids. \<not> product_found s i}" using i(1) by simp
  next
    fix i assume "i \<in> {i \<in> set ?ids. \<not> product_found s i}"
    then have i: "i \<in> set ?ids" "\<not> product_found s i" by simp_all
    then have "canonical_id i" using assms(3) by (simp add: list_all_iff)
    then have "i \<notin> set (map (\<lambda>p. str_int (p_id p)) ps)"
      using canonical_fetched_iff [OF _ i(1) ps] i(2) by simp
    then show "i \<in> set ?names" using i(1) missing_products_set [of ?ids ps] by auto
  qed
  then show ?thesis
    using CreateOrder_missing [OF assms(1,2,4,5)] missing_products_set [of ?ids ps] by blast
qed

text \<open>
  Claim C10, as the code has it. When the customer is found, the fetch does not raise,
  every id of the request is written canonically and is the id of a stored product, and
  some id occurs more than once in the request, \<open>createOrder\<close> raises: the database
  returns each product once, so fewer products than ids are fetched. The list of missing
  ids in the message is empty.
\<close>

theorem CreateOrder_duplicate_ids:
  assumes "wf_store s"
    and "Customer_get (fault fs 0) s (oi_customer_id input) = Inr (Some c)"
    and "fault fs 1 = None"
    and "\<not> distinct (oi_product_ids input)"
    and "list_all canonical_id (oi_product_ids input)"
    and "list_all (product_found s) (oi_product_ids input)"
  shows "CreateOrder_mutate fs s input =
           (Inl (ValidationError [StrOf (ValidationError [S ''Products not found: ''])]), s)"
proof -
  have "list_all (\<lambda>i. i \<in> set (map (\<lambda>p. str_int (p_id p)) (products s))) (oi_product_ids input)"
    unfolding list_all_iff
  proof
    fix i assume i: "i \<in> set (oi_product_ids input)"
    then obtain k where k: "py_int i = Some k" "str_int k = i"
      using assms(5) canonical_id_str by (auto simp: list_all_iff)
    obtain p where p: "p \<in> set (products s)" "py_int i = Some (p_id p)"
      using assms(6) i by (auto simp: list_all_iff product_found_def list_ex_iff)
    have "str_int (p_id p) = i" using k p(2) by simp
    then show "i \<in> set (map (\<lambda>p. str_int (p_id p)) (products s))" using p(1) by force
  qed
  then show ?thesis using duplicate_existing_ids_fail [OF assms(1-4)] by simp
qed

theorem CreateOrder_failure_leaves_store_witness:
  "(\<exists>e. CreateOrder_mutate []
          \<lparr>customers = [\<lparr>c_id = 1, c_name = ''Ann'', c_email = ''a@x.org'', c_phone = None\<rparr>],
           products = [], orders = []\<rparr>
          \<lparr>oi_customer_id = ''1'', oi_product_ids = [], oi_order_date = None\<rparr>
        = (Inl e,
           \<lparr>customers = [\<lparr>c_id = 1, c_name = ''Ann'', c_email = ''a@x.org'', c_phone = None\<rparr>],
            products = [], orders = []\<rparr>)) \<and>
   snd (CreateOrder_calls
          [([], \<lparr>oi_customer_id = ''1'', oi_product_ids = [''99''], oi_order_date = None\<rparr>),
           ([], \<lparr>oi_customer_id = ''1'', oi_product_ids = [''99''], oi_order_date = None\<rparr>)]
          \<lparr>customers = [\<lparr>c_id = 1, c_name = ''Ann'', c_email = ''a@x.org'', c_phone = None\<rparr>],
           products = [], orders = []\<rparr>)
     = \<lparr>customers = [\<lparr>c_id = 1, c_name = ''Ann'', c_email = ''a@x.org'', c_phone = None\<rparr>],
        products = [], orders = []\<rparr>"
proof -
  let ?s = "\<lparr>customers = [\<lparr>c_id = 1, c_name = ''Ann'', c_email = ''a@x.org'', c_phone = None\<rparr>],
           products = [], orders = []\<rparr>"
  let ?missing = "\<lparr>oi_customer_id = ''1'', oi_product_ids = [''99''], oi_order_date = None\<rparr>"
  have f: "list_all failed (fst (CreateOrder_calls [([], ?missing), ([], ?missing)] ?s))"
    by code_simp
  show ?thesis
    using f
      CreateOrder_failure_leaves_store [of "[]" ?s
        "\<lparr>oi_customer_id = ''1'', oi_product_ids = [], oi_order_date = None\<rparr>"
        "ValidationError []" ?s
        "[([], ?missing), ([], ?missing)]"]
    by simp
qed

lemma distinct_singleton: "distinct xs \<Longrightarrow> set xs = {x} \<Longrightarrow> xs = [x]"
  by (cases xs) (auto simp: subset_singleton_iff)

theorem CreateOrder_products_not_found_witness:
  "CreateOrder_mutate []
     \<lparr>customers = [\<lparr>c_id = 1, c_name = ''Ann'', c_email = ''a@x.org'', c_phone = None\<rparr>],
      products = [\<lparr>p_id = 1, p_name = ''P1'', p_price = \<lparr>dec_int = 1000, dec_exp = - 2\<rparr>,
                   p_stock = 3\<rparr>],
      orders = []\<rparr>
     \<lparr>oi_customer_id = ''1'', oi_product_ids = [''1'', ''99''], oi_order_date = None\<rparr>
   = (Inl (ValidationError [StrOf (ValidationError [S ''Products not found: 99''])]),
      \<lparr>customers = [\<lparr>c_id = 1, c_name = ''Ann'', c_email = ''a@x.org'', c_phone = None\<rparr>],
       products = [\<lparr>p_id = 1, p_name = ''P1'', p_price = \<lparr>dec_int = 1000, dec_exp = - 2\<rparr>,
                    p_stock = 3\<rparr>],
       orders = []\<rparr>)"
proof -
  let ?c = "\<lparr>c_id = 1, c_name = ''Ann'', c_email = ''a@x.org'', c_phone = None\<rparr>"
  let ?p = "\<lparr>p_id = 1, p_name = ''P1'', p_price = \<lparr>dec_int = 1000, dec_exp = - 2\<rparr>, p_stock = 3\<rparr>"
  let ?s = "\<lparr>customers = [?c], products = [?p], orders = []\<rparr>"
  let ?input = "\<lparr>oi_customer_id = ''1'', oi_product_ids = [''1'', ''99''], oi_order_date = None\<rparr>"
  have a: "Customer_get (fault [] 0) ?s (oi_customer_id ?input) = Inr (Some ?c)" by code_simp
  have b: "oi_product_ids ?input \<noteq> []" by simp
  have c: "Product_filter_id_in (fault [] 1) ?s (oi_product_ids ?input) = Inr [?p]" by code_simp
  have d: "length [?p] \<noteq> length (oi_product_ids ?input)" by simp
  have k: "list_all canonical_id (oi_product_ids ?input)" by code_simp
  have f: "product_found ?s ''1''" "\<not> product_found ?s ''99''" by code_simp+
  obtain names where n: "CreateOrder_mutate [] ?s ?input =
           (Inl (ValidationError [StrOf (ValidationError
              [S (''Products not found: '' @ join '', '' names)])]), ?s)"
      "distinct names"
      "set names = {i \<in> set (oi_product_ids ?input). \<not> product_found ?s i}"
    using CreateOrder_products_not_found [OF a b k c d] by blast
  have "set names = {''99''}" unfolding n(3) using f by auto
  then have "names = [''99'']" using n(2) by (rule distinct_singleton [rotated])
  then show ?thesis using n(1) by simp
qed

theorem CreateOrder_duplicate_ids_witness:
  "CreateOrder_mutate []
     \<lparr>customers = [\<lparr>c_id = 1, c_name = ''Ann'', c_email = ''a@x.org'', c_phone = None\<rparr>],
      products = [\<lparr>p_id = 1, p_name = ''P1'', p_price = \<lparr>dec_int = 1000, dec_exp = - 2\<rparr>,
                   p_stock = 3\<rparr>],
      orders = []\<rparr>
     \<lparr>oi_customer_id = ''1'', oi_product_ids = [''1'', ''1''], oi_order_date = None\<rparr>
   = (Inl (ValidationError [StrOf (ValidationError [S ''Products not found: ''])]),
      \<lparr>customers = [\<lparr>c_id = 1, c_name = ''Ann'', c_email = ''a@x.org'', c_phone = None\<rparr>],
       products = [\<lparr>p_id = 1, p_name = ''P1'', p_price = \<lparr>dec_int = 1000, dec_exp = - 2\<rparr>,
                    p_stock = 3\<rparr>],
       orders = []\<rparr>)"
proof -
  let ?c = "\<lparr>c_id = 1, c_name = ''Ann'', c_email = ''a@x.org'', c_phone = None\<rparr>"
  let ?p = "\<lparr>p_id = 1, p_name = ''P1'', p_price = \<lparr>dec_int = 1000, dec_exp = - 2\<rparr>, p_stock = 3\<rparr>"
  let ?s = "\<lparr>customers = [?c], products = [?p], orders = []\<rparr>"
  let ?input = "\<lparr>oi_customer_id = ''1'', oi_product_ids = [''1'', ''1''], oi_order_date = None\<rparr>"
  have w: "wf_store ?s" by (simp add: wf_store_def)
  have a: "Customer_get (fault [] 0) ?s (oi_customer_id ?input) = Inr (Some ?c)" by code_simp
  have b: "fault [] 1 = None" by (simp add: fault_def)
  have c: "\<not> distinct (oi_product_ids ?input)" by simp
  have d: "list_all canonical_id (oi_product_ids ?input)" by code_simp
  have e: "list_all (product_found ?s) (oi_product_ids ?input)" by code_simp
  show ?thesis
    using CreateOrder_duplicate_ids [OF w a b c d e] .
qed

text \<open>
  Claim C2 as stated fails. The code compares the requested strings with the text of the
  fetched keys: for the ids \<open>1\<close> and \<open>01\<close> one product is fetched for two ids, and the
  error names \<open>01\<close>, although the product with the key 1 is found for it.
\<close>

theorem CreateOrder_noncanonical_id_counterexample:
  "CreateOrder_mutate []
     \<lparr>customers = [\<lparr>c_id = 1, c_name = ''Ann'', c_email = ''a@x.org'', c_phone = None\<rparr>],
      products = [\<lparr>p_id = 1, p_name = ''P1'', p_price = \<lparr>dec_int = 1000, dec_exp = - 2\<rparr>,
                   p_stock = 3\<rparr>],
      orders = []\<rparr>
     \<lparr>oi_customer_id = ''1'', oi_product_ids = [''1'', ''01''], oi_order_date = None\<rparr>
   = (Inl (ValidationError [StrOf (ValidationError [S ''Products not found: 01''])]),
      \<lparr>customers = [\<lparr>c_id = 1, c_name = ''Ann'', c_email = ''a@x.org'', c_phone = None\<rparr>],
       products = [\<lparr>p_id = 1, p_name = ''P1'', p_price = \<lparr>dec_int = 1000, dec_exp = - 2\<rparr>,
                    p_stock = 3\<rparr>],
       orders = []\<rparr>) \<and>
   product_found
     \<lparr>customers = [\<lparr>c_id = 1, c_name = ''Ann'', c_email = ''a@x.org'', c_phone = None\<rparr>],
      products = [\<lparr>p_id = 1, p_name = ''P1'', p_price = \<lparr>dec_int = 1000, dec_exp = - 2\<rparr>,
                   p_stock = 3\<rparr>],
      orders = []\<rparr> ''01''"
  by code_simp

text \<open>
  Claim C10 as stated fails. For the id \<open>01\<close> given twice, the product with the key 1
  exists and is fetched once, and the list of missing ids in the message is not empty:
  it names \<open>01\<close>.
\<close>

theorem CreateOrder_duplicate_noncanonical_counterexample:
  "CreateOrder_mutate []
     \<lparr>customers = [\<lparr>c_id = 1, c_name = ''Ann'', c_email = ''a@x.org'', c_phone = None\<rparr>],
      products = [\<lparr>p_id = 1, p_name = ''P1'', p_price = \<lparr>dec_int = 1000, dec_exp = - 2\<rparr>,
                   p_stock = 3\<rparr>],
      orders = []\<rparr>
     \<lparr>oi_customer_id = ''1'', oi_product_ids = [''01'', ''01''], oi_order_date = None\<rparr>
   = (Inl (ValidationError [StrOf (ValidationError [S ''Products not found: 01''])]),
      \<lparr>customers = [\<lparr>c_id = 1, c_name = ''Ann'', c_email = ''a@x.org'', c_phone = None\<rparr>],
       products = [\<lparr>p_id = 1, p_name = ''P1'', p_price = \<lparr>dec_int = 1000, dec_exp = - 2\<rparr>,
                    p_stock = 3\<rparr>],
       orders = []\<rparr>) \<and>
   product_found
     \<lparr>customers = [\<lparr>c_id = 1, c_name = ''Ann'', c_email = ''a@x.org'', c_phone = None\<rparr>],
      products = [\<lparr>p_id = 1, p_name = ''P1'', p_price = \<lparr>dec_int = 1000, dec_exp = - 2\<rparr>,
                   p_stock = 3\<rparr>],
      orders = []\<rparr> ''01''"
  by code_simp

lemma except_ValidationError_Inr:
  "except_ValidationError r = (Inr v, s') \<Longrightarrow> r = (Inr v, s')"
  by (auto simp: except_ValidationError_def split: prod.splits sum.splits exn.splits)

lemma except_Exception_Inr:
  "except_Exception p r = (Inr v, s') \<Longrightarrow> r = (Inr v, s')"
  by (auto simp: except_Exception_def split: prod.splits sum.splits exn.splits)

lemma atomic_Inr: "atomic s body = (Inr v, s') \<Longrightarrow> body s = (Inr v, s')"
  by (auto simp: atomic_def split: prod.splits sum.splits)

lemma put_order_append:
  assumes "o_id ord' = o_id ord" and "o_id ord \<notin> set (map o_id (orders s))"
  shows "put_order ord' (s\<lparr>orders := orders s @ [ord]\<rparr>) = s\<lparr>orders := orders s @ [ord']\<rparr>"
proof -
  have "map (\<lambda>r. if o_id r = o_id ord' then ord' else r) (orders s) = orders s"
  proof (intro map_idI)
    fix r assume "r \<in> set (orders s)"
    then have "o_id r \<in> set (map o_id (orders s))" by simp
    then have "o_id r \<noteq> o_id ord'" using assms by metis
    then show "(if o_id r = o_id ord' then ord' else r) = r" by simp
  qed
  then show ?thesis using assms(1) by (simp add: put_order_def)
qed

lemma CreateOrder_block_Inr:
  assumes "CreateOrder_block fs c ps date s = (Inr ord, s')"
  shows "ord = \<lparr>o_id = next_pk (map o_id (orders s)), o_customer = c, o_products = ps,
                 o_total_amount = py_sum (map p_price ps), o_order_date = date\<rparr> \<and>
         s' = s\<lparr>orders := orders s @ [ord]\<rparr>"
proof -
  let ?o0 = "\<lparr>o_id = next_pk (map o_id (orders s)), o_customer = c, o_products = [],
                 o_total_amount = \<lparr>dec_int = 0, dec_exp = 0\<rparr>, o_order_date = date\<rparr>"
  let ?o1 = "?o0\<lparr>o_products := ps\<rparr>"
  let ?o2 = "?o1\<lparr>o_total_amount := py_sum (map p_price ps)\<rparr>"
  have fresh: "o_id ?o0 \<notin> set (map o_id (orders s))"
    using next_pk_fresh [of "map o_id (orders s)"] by simp
  have p1: "put_order ?o1 (s\<lparr>orders := orders s @ [?o0]\<rparr>) = s\<lparr>orders := orders s @ [?o1]\<rparr>"
    using fresh by (intro put_order_append) simp_all
  have p2: "put_order ?o2 (s\<lparr>orders := orders s @ [?o1]\<rparr>) = s\<lparr>orders := orders s @ [?o2]\<rparr>"
    using fresh by (intro put_order_append) simp_all
  have "fault fs 2 = None" "fault fs 3 = None" "fault fs 4 = None"
    using assms
    by (auto simp: CreateOrder_block_def Order_create_def Order_products_set_def Order_save_def
          Let_def split: option.splits)
  then have "CreateOrder_block fs c ps date s = (Inr ?o2, s\<lparr>orders := orders s @ [?o2]\<rparr>)"
    using p1 p2
    by (simp add: CreateOrder_block_def Order_create_def Order_products_set_def Order_save_def
          Let_def)
  then show ?thesis using assms by simp
qed

lemma CreateOrder_try_Inr:
  assumes t: "CreateOrder_try fs s input = (Inr r, s')"
  shows "\<exists>c ps. Customer_get (fault fs 0) s (oi_customer_id input) = Inr (Some c) \<and>
           oi_product_ids input \<noteq> [] \<and>
           Product_filter_id_in (fault fs 1) s (oi_product_ids input) = Inr ps \<and>
           length ps = length (oi_product_ids input) \<and>
           (\<exists>ord. atomic s (CreateOrder_block fs c ps (oi_order_date input)) = (Inr ord, s') \<and>
              r = \<lparr>co_order = ord, co_message = ''Order created successfully''\<rparr>)"
proof (cases "Customer_get (fault fs 0) s (oi_customer_id input)")
  case (Inl e)
  then show ?thesis using t by (simp add: CreateOrder_try_def)
next
  case (Inr oc)
  show ?thesis
  proof (cases oc)
    case None
    then show ?thesis using t Inr by (simp add: CreateOrder_try_def)
  next
    case (Some c)
    note c = Inr [unfolded Some]
    show ?thesis
    proof (cases "oi_product_ids input = []")
      case True
      then show ?thesis using t c by (simp add: CreateOrder_try_def)
    next
      case ne: False
      show ?thesis
      proof (cases "Product_filter_id_in (fault fs 1) s (oi_product_ids input)")
        case (Inl e)
        then show ?thesis using t c ne by (simp add: CreateOrder_try_def)
      next
        case ps: (Inr ps)
        show ?thesis
        proof (cases "length ps = length (oi_product_ids input)")
          case False
          then show ?thesis using t c ne ps by (simp add: CreateOrder_try_def)
        next
          case len: True
          obtain x u where a: "atomic s (CreateOrder_block fs c ps (oi_order_date input)) = (x, u)"
            by (cases "atomic s (CreateOrder_block fs c ps (oi_order_date input))")
          show ?thesis
          proof (cases x)
            case (Inl e)
            then show ?thesis using t c ne ps len a by (simp add: CreateOrder_try_def)
          next
            case (Inr ord)
            then have "r = \<lparr>co_order = ord, co_message = ''Order created successfully''\<rparr>" "u = s'"
              using t c ne ps len a by (simp_all add: CreateOrder_try_def)
            then show ?thesis using c ne ps len a Inr by blast
          qed
        qed
      qed
    qed
  qed
qed

lemma CreateOrder_Inr:
  assumes "CreateOrder_mutate fs s input = (Inr r, s')"
  shows "\<exists>c ps. Customer_get (fault fs 0) s (oi_customer_id input) = Inr (Some c) \<and>
           oi_product_ids input \<noteq> [] \<and>
           Product_filter_id_in (fault fs 1) s (oi_product_ids input) = Inr ps \<and>
           length ps = length (oi_product_ids input) \<and>
           co_message r = ''Order created successfully'' \<and>
           co_order r = \<lparr>o_id = next_pk (map o_id (orders s)), o_customer = c, o_products = ps,
                 o_total_amount = py_sum (map p_price ps), o_order_date = oi_order_date input\<rparr> \<and>
           s' = s\<lparr>orders := orders s @ [co_order r]\<rparr>"
proof -
  have "except_ValidationError (CreateOrder_try fs s input) = (Inr r, s')"
    using assms unfolding CreateOrder_mutate_def by (rule except_Exception_Inr)
  then have t: "CreateOrder_try fs s input = (Inr r, s')"
    by (rule except_ValidationError_Inr)
  obtain c ps ord where h:
      "Customer_get (fault fs 0) s (oi_customer_id input) = Inr (Some c)"
      "oi_product_ids input \<noteq> []"
      "Product_filter_id_in (fault fs 1) s (oi_product_ids input) = Inr ps"
      "length ps = length (oi_product_ids input)"
      "atomic s (CreateOrder_block fs c ps (oi_order_date input)) = (Inr ord, s')"
      "r = \<lparr>co_order = ord, co_message = ''Order created successfully''\<rparr>"
    using CreateOrder_try_Inr [OF t] by blast
  have b: "CreateOrder_block fs c ps (oi_order_date input) s = (Inr ord, s')"
    using h(5) by (rule atomic_Inr)
  have o: "ord = \<lparr>o_id = next_pk (map o_id (orders s)), o_customer = c, o_products = ps,
                 o_total_amount = py_sum (map p_price ps), o_order_date = oi_order_date input\<rparr>"
      "s' = s\<lparr>orders := orders s @ [ord]\<rparr>"
    using CreateOrder_block_Inr [OF b] by simp_all
  have "co_message r = ''Order created successfully''" "co_order r = ord"
    using h(6) by simp_all
  then show ?thesis using h(1-4) o by blast
qed

lemma requested_products_found:
  assumes "distinct (map p_id (products s))"
    and "ps = filter (\<lambda>p. Some (p_id p) \<in> set (map py_int ids)) (products s)"
    and "length ps = length ids"
  shows "set (map py_int ids) = set (map (\<lambda>p. Some (p_id p)) ps)"
proof -
  have d: "distinct (map p_id ps)" unfolding assms(2) using assms(1) by (rule distinct_map_filter)
  have "distinct (map (\<lambda>p. Some (p_id p)) ps)"
    using d by (simp add: distinct_map inj_on_def)
  then have "card (set (map (\<lambda>p. Some (p_id p)) ps)) = length ps"
    by (metis distinct_card length_map)
  moreover have "card (set (map py_int ids)) \<le> length ids"
    by (metis card_length length_map)
  moreover have sub: "set (map (\<lambda>p. Some (p_id p)) ps) \<subseteq> set (map py_int ids)"
    unfolding assms(2) by auto
  ultimately have "card (set (map py_int ids)) \<le> card (set (map (\<lambda>p. Some (p_id p)) ps))"
    using assms(3) by simp
  then show ?thesis using sub by (metis List.finite_set card_seteq)
qed

lemma ndigits_le: "0 < k \<Longrightarrow> n < 10 ^ k \<Longrightarrow> ndigits n \<le> k"
proof (induction n arbitrary: k rule: ndigits.induct)
  case (1 n)
  show ?case
  proof (cases "n < 10")
    case True
    then show ?thesis using 1(2) by (simp add: ndigits.simps [of n])
  next
    case False
    obtain j where k: "k = Suc j" using 1(2) by (cases k) auto
    have "j \<noteq> 0" using False 1(3) k by (cases j) auto
    moreover have "n div 10 < 10 ^ j" using 1(3) k by (simp add: less_mult_imp_div_less mult.commute)
    ultimately have "ndigits (n div 10) \<le> j" using 1(1) [OF False, of j] by simp
    then show ?thesis using False k by (simp add: ndigits.simps [of n])
  qed
qed

lemma decimal_fix_fits: "fits_context d \<Longrightarrow> decimal_fix d = d"
  using ndigits_le [of prec "dec_int d"]
  by (simp add: fits_context_def decimal_fix_def prec_def)

lemma fits_exact_add_left: "fits_context (exact_add a b) \<Longrightarrow> fits_context a"
proof -
  assume f: "fits_context (exact_add a b)"
  let ?e = "min (dec_exp a) (dec_exp b)"
  have "dec_int a * 1 \<le> dec_int a * 10 ^ nat (dec_exp a - ?e)"
    by (intro mult_le_mono2) simp
  also have "\<dots> \<le> dec_int (exact_add a b)"
    by (simp add: exact_add_def Let_def)
  finally show ?thesis using f by (simp add: fits_context_def)
qed

lemma py_sum_snoc: "py_sum (xs @ [x]) = decimal_add (py_sum xs) x"
  by (simp add: py_sum_def)

lemma exact_sum_snoc: "exact_sum (xs @ [x]) = exact_add (exact_sum xs) x"
  by (simp add: exact_sum_def)

lemma py_sum_exact: "fits_context (exact_sum xs) \<Longrightarrow> py_sum xs = exact_sum xs"
proof (induction xs rule: rev_induct)
  case Nil
  show ?case by (simp add: py_sum_def exact_sum_def)
next
  case (snoc x xs)
  have f: "fits_context (exact_add (exact_sum xs) x)"
    using snoc.prems by (simp add: exact_sum_snoc)
  then have "fits_context (exact_sum xs)" by (rule fits_exact_add_left)
  then have "py_sum xs = exact_sum xs" by (rule snoc.IH)
  then show ?case
    using f by (simp add: py_sum_snoc exact_sum_snoc decimal_add_def decimal_fix_fits)
qed

lemma power_nat_powi: "0 \<le> k \<Longrightarrow> (10::rat) ^ nat k = 10 powi k"
  by (simp add: power_int_def)

lemma dec_val_exact_add: "dec_val (exact_add a b) = dec_val a + dec_val b"
proof -
  let ?e = "min (dec_exp a) (dec_exp b)"
  have a: "(10::rat) ^ nat (dec_exp a - ?e) * 10 powi ?e = 10 powi dec_exp a"
    using power_int_add [of "10::rat" "dec_exp a - ?e" ?e] by (simp add: power_nat_powi)
  have b: "(10::rat) ^ nat (dec_exp b - ?e) * 10 powi ?e = 10 powi dec_exp b"
    using power_int_add [of "10::rat" "dec_exp b - ?e" ?e] by (simp add: power_nat_powi)
  have "dec_val (exact_add a b) =
          of_nat (dec_int a) * (10 ^ nat (dec_exp a - ?e) * 10 powi ?e) +
          of_nat (dec_int b) * (10 ^ nat (dec_exp b - ?e) * 10 powi ?e)"
    by (simp add: dec_val_def exact_add_def Let_def algebra_simps)
  then show ?thesis unfolding a b by (simp add: dec_val_def)
qed

lemma dec_val_exact_sum: "dec_val (exact_sum xs) = sum_list (map dec_val xs)"
proof (induction xs rule: rev_induct)
  case Nil
  show ?case by (simp add: exact_sum_def dec_val_def Decimal_0_def)
next
  case (snoc x xs)
  then show ?case by (simp add: exact_sum_snoc dec_val_exact_add)
qed

lemma CreateOrder_succeeds:
  assumes "Customer_get (fault fs 0) s (oi_customer_id input) = Inr (Some c)"
    and "oi_product_ids input \<noteq> []"
    and "Product_filter_id_in (fault fs 1) s (oi_product_ids input) = Inr ps"
    and "length ps = length (oi_product_ids input)"
    and "fault fs 2 = None" and "fault fs 3 = None" and "fault fs 4 = None"
  shows "CreateOrder_mutate fs s input =
     (Inr \<lparr>co_order = \<lparr>o_id = next_pk (map o_id (orders s)), o_customer = c, o_products = ps,
                 o_total_amount = py_sum (map p_price ps), o_order_date = oi_order_date input\<rparr>,
           co_message = ''Order created successfully''\<rparr>,
      s\<lparr>orders := orders s @
          [\<lparr>o_id = next_pk (map o_id (orders s)), o_customer = c, o_products = ps,
            o_total_amount = py_sum (map p_price ps), o_order_date = oi_order_date input\<rparr>]\<rparr>)"
proof -
  let ?date = "oi_order_date input"
  let ?o0 = "\<lparr>o_id = next_pk (map o_id (orders s)), o_customer = c, o_products = [],
                 o_total_amount = \<lparr>dec_int = 0, dec_exp = 0\<rparr>, o_order_date = ?date\<rparr>"
  let ?o1 = "?o0\<lparr>o_products := ps\<rparr>"
  let ?o2 = "?o1\<lparr>o_total_amount := py_sum (map p_price ps)\<rparr>"
  have fresh: "o_id ?o0 \<notin> set (map o_id (orders s))"
    using next_pk_fresh [of "map o_id (orders s)"] by simp
  have p1: "put_order ?o1 (s\<lparr>orders := orders s @ [?o0]\<rparr>) = s\<lparr>orders := orders s @ [?o1]\<rparr>"
    using fresh by (intro put_order_append) simp_all
  have p2: "put_order ?o2 (s\<lparr>orders := orders s @ [?o1]\<rparr>) = s\<lparr>orders := orders s @ [?o2]\<rparr>"
    using fresh by (intro put_order_append) simp_all
  have "CreateOrder_block fs c ps ?date s = (Inr ?o2, s\<lparr>orders := orders s @ [?o2]\<rparr>)"
    using p1 p2 assms(5-7)
    by (simp add: CreateOrder_block_def Order_create_def Order_products_set_def Order_save_def
          Let_def)
  then have "CreateOrder_try fs s input =
      (Inr \<lparr>co_order = ?o2, co_message = ''Order created successfully''\<rparr>,
       s\<lparr>orders := orders s @ [?o2]\<rparr>)"
    using assms(1-4) by (simp add: CreateOrder_try_def atomic_def)
  then show ?thesis
    by (simp add: CreateOrder_mutate_def except_Exception_def except_ValidationError_def)
qed

text \<open>
  Claim C1, as the code has it. After a \<open>createOrder\<close> call that returns, on a store in
  which a key identifies one product: the products of the returned order are exactly
  the products the ids of the request denote, with the prices the store holds at the
  call; the total of the order is the sum of their prices as Python computes it, in the
  context of 28 significant digits; when the exact sum, written with the decimal places
  of the most precise price, has at most 28 digits, the total is that exact sum, and its
  value is the sum of the values of the prices. The order is added to the stored orders
  and nothing else changes.
\<close>

theorem CreateOrder_success:
  assumes "wf_store s" and "CreateOrder_mutate fs s input = (Inr r, s')"
  shows "set (map py_int (oi_product_ids input)) =
           set (map (\<lambda>p. Some (p_id p)) (o_products (co_order r))) \<and>
         set (o_products (co_order r)) \<subseteq> set (products s) \<and>
         o_total_amount (co_order r) = py_sum (map p_price (o_products (co_order r))) \<and>
         (fits_context (exact_sum (map p_price (o_products (co_order r)))) \<longrightarrow>
            o_total_amount (co_order r) = exact_sum (map p_price (o_products (co_order r))) \<and>
            dec_val (o_total_amount (co_order r)) =
              sum_list (map (\<lambda>p. dec_val (p_price p)) (o_products (co_order r)))) \<and>
         orders s' = orders s @ [co_order r] \<and> customers s' = customers s \<and>
         products s' = products s"
proof -
  obtain c ps where h:
      "Product_filter_id_in (fault fs 1) s (oi_product_ids input) = Inr ps"
      "length ps = length (oi_product_ids input)"
      "co_order r = \<lparr>o_id = next_pk (map o_id (orders s)), o_customer = c, o_products = ps,
                 o_total_amount = py_sum (map p_price ps), o_order_date = oi_order_date input\<rparr>"
      "s' = s\<lparr>orders := orders s @ [co_order r]\<rparr>"
    using CreateOrder_Inr [OF assms(2)] by blast
  have ps: "ps = filter (\<lambda>p. Some (p_id p) \<in> set (map py_int (oi_product_ids input))) (products s)"
    using h(1) by (rule filter_id_in_Inr)
  have d: "distinct (map p_id (products s))" using assms(1) by (simp add: wf_store_def)
  have 1: "set (map py_int (oi_product_ids input)) = set (map (\<lambda>p. Some (p_id p)) ps)"
    using d ps h(2) by (rule requested_products_found)
  have 2: "set ps \<subseteq> set (products s)" unfolding ps by auto
  have 3: "fits_context (exact_sum (map p_price ps)) \<Longrightarrow>
        py_sum (map p_price ps) = exact_sum (map p_price ps) \<and>
        dec_val (py_sum (map p_price ps)) = sum_list (map (\<lambda>p. dec_val (p_price p)) ps)"
    using py_sum_exact [of "map p_price ps"] dec_val_exact_sum [of "map p_price ps"]
    by (simp add: comp_def)
  have o: "o_products (co_order r) = ps" "o_total_amount (co_order r) = py_sum (map p_price ps)"
    using h(3) by simp_all
  have 4: "orders s' = orders s @ [co_order r]" "customers s' = customers s"
      "products s' = products s"
    using h(4) by simp_all
  show ?thesis unfolding o using 1 2 3 4 by blast
qed

lemma py_int_1_2: "py_int ''1'' = Some 1" "py_int ''2'' = Some 2"
  by code_simp+

theorem CreateOrder_success_witness:
  "\<exists>r s'.
     CreateOrder_mutate []
       \<lparr>customers = [\<lparr>c_id = 1, c_name = ''Ann'', c_email = ''a@x.org'', c_phone = None\<rparr>],
        products = [\<lparr>p_id = 1, p_name = ''P1'', p_price = \<lparr>dec_int = 1000, dec_exp = - 2\<rparr>,
                     p_stock = 3\<rparr>,
                    \<lparr>p_id = 2, p_name = ''P2'', p_price = \<lparr>dec_int = 550, dec_exp = - 2\<rparr>,
                     p_stock = 3\<rparr>],
        orders = []\<rparr>
       \<lparr>oi_customer_id = ''1'', oi_product_ids = [''1'', ''2''], oi_order_date = None\<rparr>
     = (Inr r, s') \<and>
     map p_id (o_products (co_order r)) = [1, 2] \<and>
     o_total_amount (co_order r) = \<lparr>dec_int = 1550, dec_exp = - 2\<rparr> \<and>
     resolve_total_amount (co_order r) = ''15.50'' \<and>
     orders s' = [co_order r]"
proof -
  let ?c = "\<lparr>c_id = 1, c_name = ''Ann'', c_email = ''a@x.org'', c_phone = None\<rparr>"
  let ?p1 = "\<lparr>p_id = 1, p_name = ''P1'', p_price = \<lparr>dec_int = 1000, dec_exp = - 2\<rparr>, p_stock = 3\<rparr>"
  let ?p2 = "\<lparr>p_id = 2, p_name = ''P2'', p_price = \<lparr>dec_int = 550, dec_exp = - 2\<rparr>, p_stock = 3\<rparr>"
  let ?s = "\<lparr>customers = [?c], products = [?p1, ?p2], orders = []\<rparr>"
  let ?input = "\<lparr>oi_customer_id = ''1'', oi_product_ids = [''1'', ''2''], oi_order_date = None\<rparr>"
  have w: "wf_store ?s" by (simp add: wf_store_def)
  have a: "Customer_get (fault [] 0) ?s (oi_customer_id ?input) = Inr (Some ?c)"
    by (simp add: Customer_get_def fault_def py_int_1_2)
  have b: "Product_filter_id_in (fault [] 1) ?s (oi_product_ids ?input) = Inr [?p1, ?p2]"
    by (simp add: Product_filter_id_in_def fault_def py_int_1_2)
  obtain r s' where m: "CreateOrder_mutate [] ?s ?input = (Inr r, s')"
     "o_products (co_order r) = [?p1, ?p2]"
    using CreateOrder_succeeds [of "[]" ?s ?input ?c "[?p1, ?p2]"] a b
    by (simp add: fault_def)
  note t = CreateOrder_success [OF w m(1)]
  have e: "exact_sum (map p_price (o_products (co_order r))) = \<lparr>dec_int = 1550, dec_exp = - 2\<rparr>"
    unfolding m(2) by (simp add: exact_sum_def exact_add_def Decimal_0_def)
  have f: "fits_context (exact_sum (map p_price (o_products (co_order r))))"
    unfolding e by (simp add: fits_context_def prec_def)
  have "o_total_amount (co_order r) = exact_sum (map p_price (o_products (co_order r)))"
    using t f by blast
  then have tot: "o_total_amount (co_order r) = \<lparr>dec_int = 1550, dec_exp = - 2\<rparr>"
    unfolding e .
  have s: "str_nat 1550 = ''1550''" by (simp add: str_nat.simps digit_char_def)
  have "resolve_total_amount (co_order r) = ''15.50''"
    unfolding resolve_total_amount_def tot by (simp add: decimal_str_def s Let_def)
  moreover have "orders s' = [co_order r]" using t by simp
  ultimately show ?thesis using m tot by (intro exI [of _ r] exI [of _ s']) simp
qed

text \<open>
  Claim C1 as stated fails: the total is not the exact sum of the prices for every call
  that returns. For the prices 9999999999999999999999999999 and 0.5 the exact sum has 29
  significant digits, and the total of the returned order is the rounded
  \<open>1.000000000000000000000000000E+28\<close>.
\<close>

theorem CreateOrder_rounded_total_counterexample:
  "CreateOrder_mutate []
     \<lparr>customers = [\<lparr>c_id = 1, c_name = ''Ann'', c_email = ''a@x.org'', c_phone = None\<rparr>],
      products = [\<lparr>p_id = 1, p_name = ''P1'',
                   p_price = \<lparr>dec_int = 9999999999999999999999999999, dec_exp = 0\<rparr>,
                   p_stock = 3\<rparr>,
                  \<lparr>p_id = 2, p_name = ''P2'', p_price = \<lparr>dec_int = 5, dec_exp = - 1\<rparr>,
                   p_stock = 3\<rparr>],
      orders = []\<rparr>
     \<lparr>oi_customer_id = ''1'', oi_product_ids = [''1'', ''2''], oi_order_date = None\<rparr>
   = (Inr \<lparr>co_order =
            \<lparr>o_id = 1,
             o_customer = \<lparr>c_id = 1, c_name = ''Ann'', c_email = ''a@x.org'', c_phone = None\<rparr>,
             o_products =
               [\<lparr>p_id = 1, p_name = ''P1'',
                 p_price = \<lparr>dec_int = 9999999999999999999999999999, dec_exp = 0\<rparr>,
                 p_stock = 3\<rparr>,
                \<lparr>p_id = 2, p_name = ''P2'', p_price = \<lparr>dec_int = 5, dec_exp = - 1\<rparr>,
                 p_stock = 3\<rparr>],
             o_total_amount = \<lparr>dec_int = 1000000000000000000000000000, dec_exp = 1\<rparr>,
             o_order_date = None\<rparr>,
          co_message = ''Order created successfully''\<rparr>,
      \<lparr>customers = [\<lparr>c_id = 1, c_name = ''Ann'', c_email = ''a@x.org'', c_phone = None\<rparr>],
       products = [\<lparr>p_id = 1, p_name = ''P1'',
                    p_price = \<lparr>dec_int = 9999999999999999999999999999, dec_exp = 0\<rparr>,
                    p_stock = 3\<rparr>,
                   \<lparr>p_id = 2, p_name = ''P2'', p_price = \<lparr>dec_int = 5, dec_exp = - 1\<rparr>,
                    p_stock = 3\<rparr>],
       orders =
         [\<lparr>o_id = 1,
           o_customer = \<lparr>c_id = 1, c_name = ''Ann'', c_email = ''a@x.org'', c_phone = None\<rparr>,
           o_products =
             [\<lparr>p_id = 1, p_name = ''P1'',
               p_price = \<lparr>dec_int = 9999999999999999999999999999, dec_exp = 0\<rparr>,
               p_stock = 3\<rparr>,
              \<lparr>p_id = 2, p_name = ''P2'', p_price = \<lparr>dec_int = 5, dec_exp = - 1\<rparr>,
               p_stock = 3\<rparr>],
           o_total_amount = \<lparr>dec_int = 1000000000000000000000000000, dec_exp = 1\<rparr>,
           o_order_date = None\<rparr>]\<rparr>) \<and>
   dec_val \<lparr>dec_int = 1000000000000000000000000000, dec_exp = 1\<rparr> \<noteq>
     dec_val \<lparr>dec_int = 9999999999999999999999999999, dec_exp = 0\<rparr> +
     dec_val \<lparr>dec_int = 5, dec_exp = - 1\<rparr>"
proof -
  let ?c = "\<lparr>c_id = 1, c_name = ''Ann'', c_email = ''a@x.org'', c_phone = None\<rparr>"
  let ?p1 = "\<lparr>p_id = 1, p_name = ''P1'',
               p_price = \<lparr>dec_int = 9999999999999999999999999999, dec_exp = 0\<rparr>, p_stock = 3\<rparr>"
  let ?p2 = "\<lparr>p_id = 2, p_name = ''P2'', p_price = \<lparr>dec_int = 5, dec_exp = - 1\<rparr>, p_stock = 3\<rparr>"
  let ?s = "\<lparr>customers = [?c], products = [?p1, ?p2], orders = []\<rparr>"
  let ?input = "\<lparr>oi_customer_id = ''1'', oi_product_ids = [''1'', ''2''], oi_order_date = None\<rparr>"
  have a: "Customer_get (fault [] 0) ?s (oi_customer_id ?input) = Inr (Some ?c)"
    by (simp add: Customer_get_def fault_def py_int_1_2)
  have b: "Product_filter_id_in (fault [] 1) ?s (oi_product_ids ?input) = Inr [?p1, ?p2]"
    by (simp add: Product_filter_id_in_def fault_def py_int_1_2)
  have n1: "ndigits 9999999999999999999999999999 = 28"
    by (simp add: ndigits.simps)
  have n2: "ndigits 99999999999999999999999999995 = 29"
    by (simp add: ndigits.simps)
  have n3: "ndigits 10000000000000000000000000000 = 29"
    by (simp add: ndigits.simps)
  have sum: "py_sum [\<lparr>dec_int = 9999999999999999999999999999, dec_exp = 0\<rparr>,
                     \<lparr>dec_int = 5, dec_exp = - 1\<rparr>] =
               \<lparr>dec_int = 1000000000000000000000000000, dec_exp = 1\<rparr>"
    by (simp add: py_sum_def decimal_add_def exact_add_def Decimal_0_def decimal_fix_def
          n1 n2 n3 prec_def round_half_even_def Let_def)
  have m: "CreateOrder_mutate [] ?s ?input =
      (Inr \<lparr>co_order = \<lparr>o_id = 1, o_customer = ?c, o_products = [?p1, ?p2],
                 o_total_amount = \<lparr>dec_int = 1000000000000000000000000000, dec_exp = 1\<rparr>,
                 o_order_date = None\<rparr>,
            co_message = ''Order created successfully''\<rparr>,
       \<lparr>customers = [?c], products = [?p1, ?p2],
        orders = [\<lparr>o_id = 1, o_customer = ?c, o_products = [?p1, ?p2],
                 o_total_amount = \<lparr>dec_int = 1000000000000000000000000000, dec_exp = 1\<rparr>,
                 o_order_date = None\<rparr>]\<rparr>)"
    using CreateOrder_succeeds [of "[]" ?s ?input ?c "[?p1, ?p2]"] a b
    by (simp add: fault_def sum next_pk_def)
  have v: "dec_val \<lparr>dec_int = 1000000000000000000000000000, dec_exp = 1\<rparr> \<noteq>
     dec_val \<lparr>dec_int = 9999999999999999999999999999, dec_exp = 0\<rparr> +
     dec_val \<lparr>dec_int = 5, dec_exp = - 1\<rparr>"
    by (simp add: dec_val_def power_int_minus)
  show ?thesis using m v by (rule conjI)
qed

end
